theory Spec2Isabelle
  imports Complex_Main "HOL-Library.Word"
begin

unbundle bit_operations_syntax

section \<open>Digital Color Organ and LED Animator (ColorOrgan\_2017\_v1\_0\_2.ino)\<close>

text \<open>
  A shallow embedding of the sketch. Conventions of the model:
  \<^item> every C \<^verbatim>\<open>float\<close>/\<^verbatim>\<open>double\<close> is a HOL \<open>real\<close>: arithmetic is exact, rounding
    of the machine formats is outside the model. The one non-finite value the code
    can produce, \<^verbatim>\<open>log10(0) = -inf\<close>, is modelled explicitly (\<open>NegInf\<close>);
  \<^item> \<^verbatim>\<open>int\<close> variables are \<open>int\<close>; \<^verbatim>\<open>byte\<close> LED components are \<open>int\<close> reduced
    \<open>mod 256\<close> where the code converts to a byte; \<^verbatim>\<open>unsigned\<close> remote codes and
    \<^verbatim>\<open>millis()\<close> timers are \<open>32 word\<close>;
  \<^item> globals become fields of records that are passed and returned;
  \<^item> \<^verbatim>\<open>FastLED.show()\<close> appends the current \<open>leds\<close> frame to the front of the
    display log \<open>shown\<close> (most recent frame first);
  \<^item> \<^verbatim>\<open>analogRead\<close>, \<^verbatim>\<open>random\<close>, \<^verbatim>\<open>millis\<close> and the IR decoder are inputs.
\<close>

subsection \<open>Named constants\<close>

definition NUMBER_STRINGS :: nat where "NUMBER_STRINGS = 4"
definition LEDS_PER_STRING :: nat where "LEDS_PER_STRING = 50"
definition TOTAL_LEDS :: nat where "TOTAL_LEDS = NUMBER_STRINGS * LEDS_PER_STRING"
definition DC_BIAS :: real where "DC_BIAS = 1.65"
definition MAX_ANALOG :: real where "MAX_ANALOG = 4095"
definition BRIGHT_LSB :: real where "BRIGHT_LSB = 0.0039"
definition SATURATION_LIMIT :: real where "SATURATION_LIMIT = 0.45"
definition SAMPLE_TIME :: real where "SAMPLE_TIME = 100 / 10 ^ 6"
definition SAMPLE_SIZE :: int where "SAMPLE_SIZE = 320"
definition UPDATE_PERIOD :: real where "UPDATE_PERIOD = 32"

definition MIN_ANIMATION_TIME :: int where "MIN_ANIMATION_TIME = 16"
definition MAX_ANIMATION_TIME :: int where "MAX_ANIMATION_TIME = 4096"
definition MIN_SPARKLE_RATE :: int where "MIN_SPARKLE_RATE = 64"
definition MAX_SPARKLE_RATE :: int where "MAX_SPARKLE_RATE = 4096"
definition HUE_STEPS :: real where "HUE_STEPS = 64"
definition FAST_ANIMATION_TIME :: "32 word" where "FAST_ANIMATION_TIME = 10"

definition RED_GAIN :: real where "RED_GAIN = 5"
definition GREEN_GAIN :: real where "GREEN_GAIN = 7"
definition BLUE_GAIN :: real where "BLUE_GAIN = 5"
definition BLUE_HP_CORNER :: real where "BLUE_HP_CORNER = 10"
definition BLUE_LP_CORNER :: real where "BLUE_LP_CORNER = 60"
definition GREEN_LP_CORNER :: real where "GREEN_LP_CORNER = 300"
definition GREEN_HP_CORNER :: real where "GREEN_HP_CORNER = 300"
definition RED_HP_CORNER :: real where "RED_HP_CORNER = 1200"
definition DYNAMIC_RANGE :: real where "DYNAMIC_RANGE = 25"
definition BRIGHTNESS_TAU :: real where "BRIGHTNESS_TAU = 60"
definition DEFAULT_QUIET_HUE :: real where "DEFAULT_QUIET_HUE = 0"
definition DEFAULT_QUIET_SATURATION :: real where "DEFAULT_QUIET_SATURATION = 0"
definition DEFAULT_QUIET_BRIGHTNESS :: real where "DEFAULT_QUIET_BRIGHTNESS = 0"
definition AGC_BOOST :: real where "AGC_BOOST = 30"
definition AGC_TAU :: real where "AGC_TAU = 1"

subsection \<open>One-time calculations of \<^verbatim>\<open>setup()\<close>\<close>

text \<open>\<^verbatim>\<open>1 - pow(2.71828, -SAMPLE_TIME * 2 * PI * corner)\<close>\<close>

definition corner_alpha :: "real \<Rightarrow> real" where
  "corner_alpha corner = 1 - 2.71828 powr (- SAMPLE_TIME * 2 * pi * corner)"

definition redHPalpha :: real where "redHPalpha = corner_alpha RED_HP_CORNER"
definition greenHPalpha :: real where "greenHPalpha = corner_alpha GREEN_HP_CORNER"
definition greenLPalpha :: real where "greenLPalpha = corner_alpha GREEN_LP_CORNER"
definition blueLPalpha :: real where "blueLPalpha = corner_alpha BLUE_LP_CORNER"
definition blueHPalpha :: real where "blueHPalpha = corner_alpha BLUE_HP_CORNER"
definition AGCboost :: real where "AGCboost = 10 powr (AGC_BOOST / 20)"
definition biasLpAlpha :: real where
  "biasLpAlpha = 1 - 2.71828 powr (- UPDATE_PERIOD * 0.001 / 1)"
definition AGCalpha :: real where "AGCalpha = UPDATE_PERIOD * 0.001 / AGC_TAU"

text \<open>\<^verbatim>\<open>hanningWindow[i] = 0.5 * (1.0 - cos(2 * PI * i / (SAMPLE_SIZE - 1)))\<close>
  for \<^verbatim>\<open>i = 0 .. SAMPLE_SIZE - 1\<close>.\<close>

definition hanningWindow :: "real list" where
  "hanningWindow =
     map (\<lambda>i. 0.5 * (1.0 - cos (2 * pi * real i / real_of_int (SAMPLE_SIZE - 1))))
       [0 ..< nat SAMPLE_SIZE]"

subsection \<open>Color organ state\<close>

record filters =
  redHP :: real
  redHP2 :: real
  redHP3 :: real
  greenLP :: real
  greenLP2 :: real
  greenLP3 :: real
  greenHP :: real
  greenHP2 :: real
  greenHP3 :: real
  blueLP :: real
  blueLP2 :: real
  blueLP3 :: real
  blueHP :: real

record organ =
  inputBias :: real
  sampleMax :: real
  inputGain :: real
  peakRed :: real
  peakGreen :: real
  peakBlue :: real
  filt :: filters

datatype error = WindowIndexOutOfBounds int

subsection \<open>The sampling loop of \<^verbatim>\<open>ShowColorOrgan\<close>\<close>

text \<open>Bias tracking and removal: reads the raw ADC value, updates \<open>inputBias\<close> and
  returns the signed sample.\<close>

definition remove_bias :: "int \<Rightarrow> organ \<Rightarrow> real \<times> organ" where
  "remove_bias a s =
     (let rawSample = real_of_int a;
          bias = rawSample * biasLpAlpha + inputBias s * (1 - biasLpAlpha)
      in (rawSample - bias, s\<lparr>inputBias := bias\<rparr>))"

text \<open>Peak measurement and the instantaneous AGC correction.\<close>

definition agc_correct :: "real \<Rightarrow> organ \<Rightarrow> organ" where
  "agc_correct rawSample s =
     (if \<bar>rawSample\<bar> > sampleMax s then
        (let s1 = s\<lparr>sampleMax := \<bar>rawSample\<bar>\<rparr>
         in if inputGain s1 * sampleMax s1 > MAX_ANALOG / 2
            then s1\<lparr>inputGain := MAX_ANALOG / 2 / sampleMax s1\<rparr>
            else s1)
      else s)"

text \<open>The value of \<^verbatim>\<open>audioSample = rawSample * inputGain\<close> together with the state
  after the bias and AGC statements of one iteration.\<close>

definition agc_sample :: "int \<Rightarrow> organ \<Rightarrow> real \<times> organ" where
  "agc_sample a s =
     (let (rawSample, s1) = remove_bias a s;
          s2 = agc_correct rawSample s1
      in (rawSample * inputGain s2, s2))"

text \<open>The thirteen first-order sections; returns the new section states and
  \<open>(redOut, greenOut, blueOut)\<close>.\<close>

definition filter_step :: "real \<Rightarrow> filters \<Rightarrow> filters \<times> real \<times> real \<times> real" where
  "filter_step audioSample f =
     (let rHP = redHPalpha * audioSample + (1 - redHPalpha) * redHP f;
          redOut1 = audioSample - rHP;
          rHP2 = redHPalpha * redOut1 + (1 - redHPalpha) * redHP2 f;
          redOut2 = redOut1 - rHP2;
          rHP3 = redHPalpha * redOut2 + (1 - redHPalpha) * redHP3 f;
          redOut = redOut2 - rHP3;
          gLP = greenLPalpha * audioSample + (1 - greenLPalpha) * greenLP f;
          gLP2 = greenLPalpha * gLP + (1 - greenLPalpha) * greenLP2 f;
          gLP3 = greenLPalpha * gLP2 + (1 - greenLPalpha) * greenLP3 f;
          gHP = greenHPalpha * gLP3 + (1 - greenHPalpha) * greenHP f;
          greenHPout1 = gLP3 - gHP;
          gHP2 = greenHPalpha * greenHPout1 + (1 - greenHPalpha) * greenHP2 f;
          greenHPout2 = greenHPout1 - gHP2;
          gHP3 = greenHPalpha * greenHPout2 + (1 - greenHPalpha) * greenHP3 f;
          greenOut = greenHPout2 - gHP3;
          bLP = blueLPalpha * audioSample + (1 - blueLPalpha) * blueLP f;
          bLP2 = blueLPalpha * bLP + (1 - blueLPalpha) * blueLP2 f;
          bLP3 = blueLPalpha * bLP2 + (1 - blueLPalpha) * blueLP3 f;
          bHP = blueHPalpha * bLP3 + (1 - blueHPalpha) * blueHP f;
          blueOut = bLP3 - bHP
      in (\<lparr>redHP = rHP, redHP2 = rHP2, redHP3 = rHP3,
           greenLP = gLP, greenLP2 = gLP2, greenLP3 = gLP3,
           greenHP = gHP, greenHP2 = gHP2, greenHP3 = gHP3,
           blueLP = bLP, blueLP2 = bLP2, blueLP3 = bLP3, blueHP = bHP\<rparr>,
          redOut, greenOut, blueOut))"

definition brightnessAlpha :: real where
  "brightnessAlpha = 1 - 2.71828 powr (- UPDATE_PERIOD * 0.001 / BRIGHTNESS_TAU)"

text \<open>Full-wave rectified peak hold with decay.\<close>

definition peak_hold :: "real \<Rightarrow> real \<Rightarrow> real" where
  "peak_hold out peak =
     (if \<bar>out\<bar> > peak then \<bar>out\<bar> else peak * (1 - brightnessAlpha))"

text \<open>One iteration of the loop body, given the window coefficient
  \<^verbatim>\<open>hanningWindow[sampleCount - 1]\<close>.\<close>

definition sample_body :: "int \<Rightarrow> real \<Rightarrow> organ \<Rightarrow> organ" where
  "sample_body a w s =
     (let (audioSample0, s1) = agc_sample a s;
          audioSample = audioSample0 * w;
          (f, redOut, greenOut, blueOut) = filter_step audioSample (filt s1)
      in s1\<lparr>filt := f,
             peakRed := peak_hold redOut (peakRed s1),
             peakGreen := peak_hold greenOut (peakGreen s1),
             peakBlue := peak_hold blueOut (peakBlue s1)\<rparr>)"

text \<open>\<^verbatim>\<open>while (sampleCount++ < SAMPLE_SIZE) { ... hanningWindow[sampleCount - 1] ... }\<close>.
  The argument \<open>sampleCount\<close> is the value the test reads; the body runs with the
  incremented value. \<open>adc k\<close> is the \<open>k\<close>-th \<^verbatim>\<open>analogRead\<close> of the block. A window
  index outside the array is an error of the model.\<close>

function sampling_loop :: "(nat \<Rightarrow> int) \<Rightarrow> int \<Rightarrow> organ \<Rightarrow> error + organ" where
  "sampling_loop adc sampleCount s =
     (if sampleCount < SAMPLE_SIZE then
        (let sc = sampleCount + 1; i = sc - 1
         in if 0 \<le> i \<and> i < int (length hanningWindow)
            then sampling_loop adc sc (sample_body (adc (nat sampleCount)) (hanningWindow ! nat i) s)
            else Inl (WindowIndexOutOfBounds i))
      else Inr s)"
  by pat_completeness auto
termination
  by (relation "measure (\<lambda>(adc, sampleCount, s). nat (SAMPLE_SIZE - sampleCount))") auto

text \<open>The AGC recovery step between blocks, followed by \<^verbatim>\<open>sampleMax = 0\<close>.\<close>

definition agc_recover :: "organ \<Rightarrow> organ" where
  "agc_recover s =
     (let s1 = (if inputGain s < AGCboost
                then s\<lparr>inputGain := AGCboost * AGCalpha + (1 - AGCalpha) * inputGain s\<rparr>
                else s)
      in s1\<lparr>sampleMax := 0\<rparr>)"

subsection \<open>Numeric helpers\<close>

text \<open>\<^verbatim>\<open>round\<close>: to the nearest integer, halves away from zero (the C function and
  the Arduino macro \<^verbatim>\<open>((x)>=0?(long)((x)+0.5):(long)((x)-0.5))\<close> agree).\<close>

definition c_round :: "real \<Rightarrow> real" where
  "c_round x = (if 0 \<le> x then of_int \<lfloor>x + 1 / 2\<rfloor> else - of_int \<lfloor>- x + 1 / 2\<rfloor>)"

text \<open>Conversion of a floating value to \<^verbatim>\<open>byte\<close>: the fraction is discarded
  (towards zero); the conversion is exact for values in \<open>[0, 256)\<close>, the only ones the
  theorems below rely on; out of range the model wraps modulo 256.\<close>

definition byte :: "real \<Rightarrow> int" where
  "byte x = (if 0 \<le> x then \<lfloor>x\<rfloor> else \<lceil>x\<rceil>) mod 256"

definition makeValid :: "real \<Rightarrow> real" where
  "makeValid v =
     (let v1 = (if v > MAX_ANALOG then MAX_ANALOG else v)
      in if v1 < 0 then 0 else v1)"

definition MakeHueValid :: "real \<Rightarrow> real" where
  "MakeHueValid v =
     (let v1 = (if v > 1.0 then 0.0 else v)
      in if v1 < 0 then 1 else v1)"

subsection \<open>Color model\<close>

type_synonym float_RGB = "real \<times> real \<times> real"
type_synonym CRGB = "int \<times> int \<times> int"

definition Hue :: "real \<Rightarrow> float_RGB" where
  "Hue h0 =
     (let h1 = (if h0 < 0.0 then 0.0 else h0);
          h = (if h1 > 1.0 then 1.0 else h1);
          slope = MAX_ANALOG / 0.33;
          red = (if h \<ge> 0.0 \<and> h \<le> 0.33 then slope * (h - 0.0)
                 else if h > 0.33 \<and> h \<le> 0.66 then MAX_ANALOG - slope * (h - 0.33)
                 else 0.0);
          green = (if h \<ge> 0.33 \<and> h \<le> 0.66 then slope * (h - 0.33)
                   else if h > 0.66 \<and> h \<le> 1 then MAX_ANALOG - slope * (h - 0.66)
                   else 0.0);
          blue = (if h \<ge> 0.66 \<and> h \<le> 1.0 then slope * (h - 0.66)
                  else if h \<ge> 0.0 \<and> h \<le> 0.33 then MAX_ANALOG - slope * (h - 0.0)
                  else 0.0)
      in (makeValid red, makeValid green, makeValid blue))"

text \<open>The statements that follow every call of \<^verbatim>\<open>Hue\<close> in \<^verbatim>\<open>CreateRainbow\<close>,
  \<^verbatim>\<open>CreateSolidColor\<close>, \<^verbatim>\<open>CreateRandom\<close> and \<^verbatim>\<open>UpdateQuietColor\<close>: blend towards
  white by the saturation, then scale by the brightness and clamp.\<close>

definition apply_sat_bright :: "real \<Rightarrow> real \<Rightarrow> float_RGB \<Rightarrow> float_RGB" where
  "apply_sat_bright sat bri c =
     (case c of (red, green, blue) \<Rightarrow>
        (let red1 = (1 - sat) * MAX_ANALOG + sat * red;
             green1 = (1 - sat) * MAX_ANALOG + sat * green;
             blue1 = (1 - sat) * MAX_ANALOG + sat * blue
         in (makeValid (red1 * bri), makeValid (green1 * bri), makeValid (blue1 * bri))))"

subsection \<open>Program state\<close>

datatype mode = ColorOrgan | Rainbow | SolidColor | RandomColors | QuietColor

record state =
  onOff :: bool
  hue :: real
  saturation :: real
  brightness :: real
  quietRed :: real
  quietBlue :: real
  quietGreen :: real
  sparkle :: bool
  sparklesPerMinute :: int
  slowAnimationTime :: int
  quietHue :: real
  quietSaturation :: real
  quietBrightness :: real
  keyCode :: "32 word"
  repeatCount :: "32 word"
  keyTimer :: "32 word"
  animationTimer :: "32 word"
  slowAnimationTimer :: "32 word"
  currentState :: mode
  leds :: "CRGB list"
  buffer :: "float_RGB list"
  org :: organ
  shown :: "CRGB list list"
  rng_pos :: nat

text \<open>\<^verbatim>\<open>FastLED.show()\<close>: the frame in \<open>leds\<close> goes to the strings.\<close>

definition FastLED_show :: "state \<Rightarrow> state" where
  "FastLED_show s = s\<lparr>shown := leds s # shown s\<rparr>"

text \<open>\<^verbatim>\<open>random(lo, hi)\<close> on the \<open>k\<close>-th value of the generator's stream.\<close>

definition random_c :: "(nat \<Rightarrow> int) \<Rightarrow> int \<Rightarrow> int \<Rightarrow> nat \<Rightarrow> int" where
  "random_c rnd lo hi k = (if lo \<ge> hi then lo else rnd k mod (hi - lo) + lo)"

subsection \<open>Fixed effects\<close>

definition rainbow_step :: "real \<Rightarrow> real" where
  "rainbow_step h =
     (let steps = int TOTAL_LEDS;
          fastSteps = \<lfloor>real_of_int steps * 0.33\<rfloor>;
          slowSteps = steps - fastSteps;
          ratio = 3;
          stepSize = 1.0 / (real_of_int (slowSteps div ratio) + real_of_int fastSteps)
      in if h > 0.333 \<and> h < 0.666
         then MakeHueValid (h + stepSize / real_of_int ratio)
         else MakeHueValid (h + stepSize))"

fun rainbow_pixels :: "nat \<Rightarrow> real \<Rightarrow> real \<Rightarrow> real \<Rightarrow> float_RGB list" where
  "rainbow_pixels 0 h sat bri = []"
| "rainbow_pixels (Suc n) h sat bri =
     (let h1 = rainbow_step h
      in apply_sat_bright sat bri (Hue h1) # rainbow_pixels n h1 sat bri)"

definition CreateRainbow :: "real \<Rightarrow> real \<Rightarrow> real \<Rightarrow> state \<Rightarrow> state" where
  "CreateRainbow h sat bri s = s\<lparr>buffer := rainbow_pixels TOTAL_LEDS h sat bri\<rparr>"

definition CreateSolidColor :: "real \<Rightarrow> real \<Rightarrow> real \<Rightarrow> state \<Rightarrow> state" where
  "CreateSolidColor h sat bri s =
     s\<lparr>buffer := replicate TOTAL_LEDS (apply_sat_bright sat bri (Hue h))\<rparr>"

definition CreateRandom :: "(nat \<Rightarrow> int) \<Rightarrow> real \<Rightarrow> real \<Rightarrow> state \<Rightarrow> state" where
  "CreateRandom rnd sat bri s =
     s\<lparr>buffer :=
          map (\<lambda>i. apply_sat_bright sat bri
                     (Hue (real_of_int (random_c rnd 0 10000 (rng_pos s + i)) / 10000.0)))
            [0 ..< TOTAL_LEDS],
       rng_pos := rng_pos s + TOTAL_LEDS\<rparr>"

text \<open>Quantization of one buffer entry in \<^verbatim>\<open>ShowBuffer\<close>, with the rule against the
  flicker of dim whites.\<close>

definition show_led :: "float_RGB \<Rightarrow> CRGB" where
  "show_led c =
     (case c of (br, bg, bb) \<Rightarrow>
        (let lr = byte (c_round (br / 16.6));
             lg = byte (c_round (bg / 16.6));
             lb = byte (c_round (bb / 16.6))
         in if lr = lg \<and> lg = lb \<and> lb < 23 \<and> lb \<noteq> 0
            then (lr, lg, (lb + 1) mod 256)
            else (lr, lg, lb)))"

definition ShowBuffer :: "state \<Rightarrow> state" where
  "ShowBuffer s =
     FastLED_show (s\<lparr>leds := map (\<lambda>i. show_led (buffer s ! i)) [0 ..< TOTAL_LEDS]\<rparr>)"

definition Sparkle :: "(nat \<Rightarrow> int) \<Rightarrow> state \<Rightarrow> state" where
  "Sparkle rnd s =
     (let roll = random_c rnd 0 6000 (rng_pos s);
          s1 = s\<lparr>rng_pos := rng_pos s + 1\<rparr>
      in if roll < sparklesPerMinute s1 then
           (let i = nat (random_c rnd 0 (int TOTAL_LEDS) (rng_pos s1));
                s2 = s1\<lparr>rng_pos := rng_pos s1 + 1\<rparr>;
                saved = leds s2 ! i;
                s3 = FastLED_show (s2\<lparr>leds := (leds s2)[i := (255, 255, 255)]\<rparr>)
            in FastLED_show (s3\<lparr>leds := (leds s3)[i := saved]\<rparr>))
         else s1)"

definition Blink :: "state \<Rightarrow> state" where
  "Blink s = ShowBuffer (FastLED_show (s\<lparr>leds := replicate TOTAL_LEDS (0, 0, 0)\<rparr>))"

definition UpdateQuietColor :: "state \<Rightarrow> state" where
  "UpdateQuietColor s =
     (let s1 = s\<lparr>quietHue := hue s, quietSaturation := saturation s,
                  quietBrightness := brightness s\<rparr>
      in case apply_sat_bright (saturation s1) (brightness s1) (Hue (quietHue s1)) of
           (qr, qg, qb) \<Rightarrow> s1\<lparr>quietRed := qr, quietGreen := qg, quietBlue := qb\<rparr>)"

subsection \<open>Brightness mapping of \<^verbatim>\<open>ShowColorOrgan\<close>\<close>

text \<open>A floating value of the mapping: finite, or the \<^verbatim>\<open>-inf\<close> that
  \<^verbatim>\<open>log10(0)\<close> returns and that the arithmetic after it keeps.\<close>

datatype fval = NegInf | Fin real

text \<open>Channel gain, clamp and dB scaling:
  \<^verbatim>\<open>255. - 255. * 20 * log10(bright / MAX_ANALOG) / (-DYNAMIC_RANGE)\<close>.
  The clamped brightness is never negative; at 0 the logarithm is \<^verbatim>\<open>-inf\<close>, and so
  is the result.\<close>

definition dB_scale :: "real \<Rightarrow> real \<Rightarrow> fval" where
  "dB_scale gain peak =
     (let bright = makeValid (gain * peak)
      in if bright = 0 then NegInf
         else Fin (255 - 255 * 20 * log 10 (bright / MAX_ANALOG) / (- DYNAMIC_RANGE)))"

text \<open>The test \<^verbatim>\<open>value < 0.\<close>\<close>

fun below_zero :: "fval \<Rightarrow> bool" where
  "below_zero NegInf = True"
| "below_zero (Fin v) = (v < 0)"

text \<open>\<^verbatim>\<open>if (red < 0.) red = byte(round(quietRed / 16.6));\<close>\<close>

definition quiet_subst :: "fval \<Rightarrow> real \<Rightarrow> real" where
  "quiet_subst v quiet =
     (if below_zero v then of_int (byte (c_round (quiet / 16.6)))
      else (case v of Fin x \<Rightarrow> x | NegInf \<Rightarrow> 0))"

text \<open>The brightness of one channel before the flicker rule: gain, clamp, dB
  scaling and the substitution of the quiet color.\<close>

definition channel_brightness :: "real \<Rightarrow> real \<Rightarrow> real \<Rightarrow> real" where
  "channel_brightness gain quiet peak = quiet_subst (dB_scale gain peak) quiet"

text \<open>The three values \<^verbatim>\<open>red\<close>, \<^verbatim>\<open>green\<close>, \<^verbatim>\<open>blue\<close> after the flicker rule.\<close>

definition organ_rgb :: "state \<Rightarrow> organ \<Rightarrow> real \<times> real \<times> real" where
  "organ_rgb s o1 =
     (let red = channel_brightness RED_GAIN (quietRed s) (peakRed o1);
          green = channel_brightness GREEN_GAIN (quietGreen s) (peakGreen o1);
          blue = channel_brightness BLUE_GAIN (quietBlue s) (peakBlue o1)
      in if red = green \<and> green = blue \<and> blue < 23 \<and> blue \<noteq> 0
         then (red, green, blue + 1)
         else (red, green, blue))"

text \<open>The frame sent to the strings: every LED gets the same three bytes.\<close>

definition organ_frame :: "state \<Rightarrow> organ \<Rightarrow> CRGB list" where
  "organ_frame s o1 =
     (case organ_rgb s o1 of (red, green, blue) \<Rightarrow>
        replicate TOTAL_LEDS (byte red, byte green, byte blue))"

definition ShowColorOrgan :: "(nat \<Rightarrow> int) \<Rightarrow> state \<Rightarrow> error + state" where
  "ShowColorOrgan adc s =
     (case sampling_loop adc 0 (org s) of
        Inl e \<Rightarrow> Inl e
      | Inr o1 \<Rightarrow>
          (let o2 = agc_recover o1
           in Inr (FastLED_show (s\<lparr>org := o2, leds := organ_frame s o2\<rparr>))))"

subsection \<open>Initial state\<close>

text \<open>The state at the end of \<^verbatim>\<open>setup()\<close>. Globals without an initializer start at
  zero; the strings show the identification colors; the display log starts here.\<close>

definition startup_color :: "nat \<Rightarrow> CRGB" where
  "startup_color j =
     (if j = 0 then (255, 0, 255) else if j = 1 then (0, 0, 255)
      else if j = 2 then (0, 255, 0) else (255, 255, 0))"

definition zero_filters :: filters where
  "zero_filters =
     \<lparr>redHP = 0, redHP2 = 0, redHP3 = 0, greenLP = 0, greenLP2 = 0, greenLP3 = 0,
      greenHP = 0, greenHP2 = 0, greenHP3 = 0, blueLP = 0, blueLP2 = 0, blueLP3 = 0,
      blueHP = 0\<rparr>"

definition initial_organ :: organ where
  "initial_organ =
     \<lparr>inputBias = DC_BIAS / 3.3 * MAX_ANALOG, sampleMax = 0, inputGain = 0,
      peakRed = 0, peakGreen = 0, peakBlue = 0, filt = zero_filters\<rparr>"

definition setup_state :: state where
  "setup_state =
     (let s0 = \<lparr>onOff = True, hue = DEFAULT_QUIET_HUE,
                saturation = DEFAULT_QUIET_SATURATION,
                brightness = DEFAULT_QUIET_BRIGHTNESS,
                quietRed = 0, quietBlue = 0, quietGreen = 0,
                sparkle = False, sparklesPerMinute = 0, slowAnimationTime = 0,
                quietHue = 0, quietSaturation = 0, quietBrightness = 0,
                keyCode = 0, repeatCount = 0, keyTimer = 0,
                animationTimer = 0, slowAnimationTimer = 0,
                currentState = ColorOrgan,
                leds = map (\<lambda>i. startup_color (i div LEDS_PER_STRING)) [0 ..< TOTAL_LEDS],
                buffer = replicate TOTAL_LEDS (0, 0, 0),
                org = initial_organ,
                shown = [], rng_pos = 0\<rparr>;
          s1 = UpdateQuietColor s0
      in s1\<lparr>slowAnimationTime := 0, sparkle := False,
             sparklesPerMinute := MAX_SPARKLE_RATE,
             saturation := 1.0, brightness := 1.0, currentState := ColorOrgan\<rparr>)"

subsection \<open>Remote key handling in \<^verbatim>\<open>loop()\<close>\<close>

text \<open>Re-pressing the key of the current animated mode: start the animation at
  \<open>start\<close>, or double the period up to \<open>MAX_ANIMATION_TIME\<close>.\<close>

definition slow_down :: "int \<Rightarrow> 32 word \<Rightarrow> state \<Rightarrow> state" where
  "slow_down start now s =
     (if slowAnimationTime s = 0
      then s\<lparr>slowAnimationTime := start, slowAnimationTimer := now\<rparr>
      else (let s1 = s\<lparr>slowAnimationTime := slowAnimationTime s * 2\<rparr>
            in if slowAnimationTime s1 > MAX_ANIMATION_TIME
               then Blink (s1\<lparr>slowAnimationTime := MAX_ANIMATION_TIME\<rparr>)
               else s1))"

text \<open>The hue steps of the Next Hue and Previous Hue keys (the former also the step
  of the solid color animation): a third of the step between red and green.\<close>

definition next_hue :: "real \<Rightarrow> real" where
  "next_hue h =
     (if h > 0.33 \<and> h < 0.66 then MakeHueValid (h + 1 / HUE_STEPS / 3.0)
      else MakeHueValid (h + 1 / HUE_STEPS))"

definition previous_hue :: "real \<Rightarrow> real" where
  "previous_hue h =
     (if h > 0.33 \<and> h < 0.66 then MakeHueValid (h - 1 / HUE_STEPS / 3.0)
      else MakeHueValid (h - 1 / HUE_STEPS))"

definition update_if_quiet :: "state \<Rightarrow> state" where
  "update_if_quiet s = (if currentState s = QuietColor then UpdateQuietColor s else s)"

text \<open>The \<^verbatim>\<open>switch (keyCode)\<close>.\<close>

definition dispatch :: "32 word \<Rightarrow> state \<Rightarrow> state" where
  "dispatch now s =
     (let k = keyCode s in
      if k = 0x08f7 then s\<lparr>currentState := ColorOrgan\<rparr>
      else if k = 0x8877 then
        s\<lparr>currentState := QuietColor, slowAnimationTime := 0, sparkle := False,
          saturation := quietSaturation s, hue := quietHue s,
          brightness := quietBrightness s\<rparr>
      else if k = 0x48b7 then
        (if currentState s \<noteq> SolidColor
         then s\<lparr>currentState := SolidColor, slowAnimationTime := 0,
                saturation := 1.0, hue := 0, brightness := 1.0\<rparr>
         else slow_down MIN_ANIMATION_TIME now s)
      else if k = 0x28d7 then
        (if currentState s \<noteq> Rainbow
         then s\<lparr>currentState := Rainbow, slowAnimationTime := 0,
                saturation := 1.0, hue := 0, brightness := 1.0\<rparr>
         else slow_down MIN_ANIMATION_TIME now s)
      else if k = 0xa857 then
        s\<lparr>currentState := Rainbow, saturation := 1.0, brightness := 0.25,
          slowAnimationTime := MIN_ANIMATION_TIME + MAX_ANIMATION_TIME div 2,
          sparkle := True\<rparr>
      else if k = 0x6897 then
        (if currentState s \<noteq> RandomColors
         then s\<lparr>currentState := RandomColors, slowAnimationTime := 0,
                saturation := 1.0, brightness := 1.0\<rparr>
         else slow_down (MIN_ANIMATION_TIME * 8) now s)
      else if k = 0x18e7 then
        (if \<not> sparkle s
         then s\<lparr>sparkle := True, sparklesPerMinute := MAX_SPARKLE_RATE\<rparr>
         else (let s1 = s\<lparr>sparklesPerMinute := sparklesPerMinute s div 2\<rparr>
               in if sparklesPerMinute s1 < MIN_SPARKLE_RATE
                  then s1\<lparr>sparklesPerMinute := MIN_SPARKLE_RATE\<rparr> else s1))
      else if k = 0x9867 then s\<lparr>sparkle := False\<rparr>
      else if k = 0x609f then
        (let s1 = s\<lparr>hue := next_hue (hue s)\<rparr>;
             s2 = CreateSolidColor (hue s1) (saturation s1) (brightness s1) s1
         in update_if_quiet s2)
      else if k = 0x20df then
        (let s1 = s\<lparr>hue := previous_hue (hue s)\<rparr>;
             s2 = CreateSolidColor (hue s1) (saturation s1) (brightness s1) s1
         in update_if_quiet s2)
      else if k = 0xa05f then
        (let s1 = s\<lparr>saturation := saturation s * 0.98\<rparr>;
             s2 = (if saturation s1 < SATURATION_LIMIT
                   then Blink (s1\<lparr>saturation := 0\<rparr>) else s1)
         in update_if_quiet s2)
      else if k = 0xb04f then
        (let s1 = (if saturation s = 0 then s\<lparr>saturation := SATURATION_LIMIT\<rparr>
                   else if saturation s / 0.98 - saturation s < BRIGHT_LSB
                   then s\<lparr>saturation := saturation s + BRIGHT_LSB\<rparr>
                   else s\<lparr>saturation := saturation s / 0.98\<rparr>)
         in if saturation s1 > 1.0 - BRIGHT_LSB
            then Blink (s1\<lparr>saturation := 1.0\<rparr>) else s1)
      else if k = 0x708f then
        (let s1 = (if brightness s = 0 then s\<lparr>brightness := BRIGHT_LSB\<rparr>
                   else if brightness s / 0.92 - brightness s < BRIGHT_LSB
                   then s\<lparr>brightness := brightness s + BRIGHT_LSB\<rparr>
                   else s\<lparr>brightness := brightness s / 0.92\<rparr>);
             s2 = (if brightness s1 > 1.0 - BRIGHT_LSB
                   then Blink (s1\<lparr>brightness := 1.0\<rparr>) else s1)
         in update_if_quiet s2)
      else if k = 0x30cf then
        (let s1 = (if brightness s * (1.0 - 0.9) > BRIGHT_LSB
                   then s\<lparr>brightness := brightness s * 0.9\<rparr>
                   else if brightness s - BRIGHT_LSB > 0.0
                   then s\<lparr>brightness := brightness s - BRIGHT_LSB\<rparr>
                   else s\<lparr>brightness := 0\<rparr>)
         in update_if_quiet s1)
      else s)"

text \<open>The refresh of the display in the current mode after the switch.\<close>

definition refresh :: "(nat \<Rightarrow> int) \<Rightarrow> state \<Rightarrow> state" where
  "refresh rnd s =
     (let s1 = (if currentState s = SolidColor \<or> currentState s = QuietColor
                then ShowBuffer (CreateSolidColor (hue s) (saturation s) (brightness s) s)
                else s);
          s2 = (if currentState s1 = RandomColors
                then ShowBuffer (CreateRandom rnd (saturation s1) (brightness s1) s1)
                else s1)
      in if currentState s2 = Rainbow
         then ShowBuffer (CreateRainbow (hue s2) (saturation s2) (brightness s2) s2)
         else s2)"

text \<open>The On/Off button: toggle, and blank the strings when switched off.\<close>

definition power_key :: "state \<Rightarrow> state" where
  "power_key s =
     (let s1 = s\<lparr>onOff := \<not> onOff s\<rparr>
      in if \<not> onOff s1
         then FastLED_show (s1\<lparr>leds := replicate TOTAL_LEDS (0, 0, 0)\<rparr>)
         else s1)"

text \<open>A valid NEC code \<open>v\<close> (the body of the decode validity test).\<close>

definition key_event :: "(nat \<Rightarrow> int) \<Rightarrow> 32 word \<Rightarrow> 32 word \<Rightarrow> state \<Rightarrow> state" where
  "key_event rnd now v s =
     (let s1 = s\<lparr>keyCode := v AND 0xffff, keyTimer := now\<rparr>;
          s2 = (if keyCode s1 = 0x58a7 then power_key s1 else s1)
      in if onOff s2 then refresh rnd (dispatch now s2) else s2)"

text \<open>The remote handler at the top of \<^verbatim>\<open>loop()\<close>, in its three steps. First the
  reset of the repeat count after 500 ms without a key.\<close>

definition idle_reset :: "32 word \<Rightarrow> state \<Rightarrow> state" where
  "idle_reset now s =
     (if now - keyTimer s > 500 then s\<lparr>repeatCount := 0, keyCode := 0\<rparr> else s)"

text \<open>A decoded frame is a protocol number and a value. A NEC repeat frame
  (\<^verbatim>\<open>0xffffffff\<close>) restarts the idle timer and counts; after more than 5 of them it
  stands for the last key. The result is the value that passes the validity test
  (NEC protocol, neither 0 nor the repeat code), if any.\<close>

definition decoded_value :: "nat \<times> 32 word \<Rightarrow> state \<Rightarrow> 32 word option" where
  "decoded_value frame s =
     (case frame of (protocolNum, v0) \<Rightarrow>
        (let v = (if v0 = 0xffffffff \<and> repeatCount s > 5 then keyCode s else v0)
         in if protocolNum = 1 \<and> v \<noteq> 0 \<and> v \<noteq> 0xffffffff then Some v else None))"

definition count_repeat :: "32 word \<Rightarrow> nat \<times> 32 word \<Rightarrow> state \<Rightarrow> state" where
  "count_repeat now frame s =
     (if snd frame = 0xffffffff
      then s\<lparr>keyTimer := now, repeatCount := repeatCount s + 1\<rparr>
      else s)"

text \<open>\<open>frame\<close> is the pending decoded frame of this pass, if any.\<close>

definition remote :: "(nat \<Rightarrow> int) \<Rightarrow> 32 word \<Rightarrow> (nat \<times> 32 word) option \<Rightarrow> state \<Rightarrow> state" where
  "remote rnd now frame s =
     (let s1 = idle_reset now s
      in case frame of
           None \<Rightarrow> s1
         | Some fr \<Rightarrow>
             (let s2 = count_repeat now fr s1
              in case decoded_value fr s1 of
                   Some v \<Rightarrow> key_event rnd now v s2
                 | None \<Rightarrow> s2))"

subsection \<open>Running the current mode in \<^verbatim>\<open>loop()\<close>\<close>

definition slow_animation :: "(nat \<Rightarrow> int) \<Rightarrow> 32 word \<Rightarrow> state \<Rightarrow> state" where
  "slow_animation rnd now s =
     (if slowAnimationTime s > 0
         \<and> now - slowAnimationTimer s > word_of_int (slowAnimationTime s)
      then
        (let s0 = s\<lparr>slowAnimationTimer := now\<rparr>;
             s1 = (if currentState s0 = SolidColor
                   then (let t = s0\<lparr>hue := next_hue (hue s0)\<rparr>
                         in ShowBuffer (CreateSolidColor (hue t) (saturation t) (brightness t) t))
                   else s0);
             s2 = (if currentState s1 = Rainbow
                   then (let t = s1\<lparr>hue := MakeHueValid (hue s1 + 1 / HUE_STEPS)\<rparr>
                         in ShowBuffer (CreateRainbow (hue t) (saturation t) (brightness t) t))
                   else s1)
         in if currentState s2 = RandomColors
            then ShowBuffer (CreateRandom rnd (saturation s2) (brightness s2) s2)
            else s2)
      else s)"

definition fixed_effects :: "(nat \<Rightarrow> int) \<Rightarrow> 32 word \<Rightarrow> state \<Rightarrow> state" where
  "fixed_effects rnd now s =
     (let s1 = (if now - animationTimer s > FAST_ANIMATION_TIME
                then (let t = s\<lparr>animationTimer := now\<rparr>
                      in if sparkle t then Sparkle rnd t else t)
                else s)
      in slow_animation rnd now s1)"

definition run_mode :: "(nat \<Rightarrow> int) \<Rightarrow> 32 word \<Rightarrow> (nat \<Rightarrow> int) \<Rightarrow> state \<Rightarrow> error + state" where
  "run_mode rnd now adc s =
     (if onOff s then
        (case (if currentState s = ColorOrgan then ShowColorOrgan adc s else Inr s) of
           Inl e \<Rightarrow> Inl e
         | Inr s1 \<Rightarrow>
             Inr (if currentState s1 \<noteq> ColorOrgan then fixed_effects rnd now s1 else s1))
      else Inr s)"

text \<open>One pass of \<^verbatim>\<open>loop()\<close>.\<close>

definition loop :: "(nat \<Rightarrow> int) \<Rightarrow> 32 word \<Rightarrow> (nat \<times> 32 word) option \<Rightarrow> (nat \<Rightarrow> int)
    \<Rightarrow> state \<Rightarrow> error + state" where
  "loop rnd now frame adc s = run_mode rnd now adc (remote rnd now frame s)"

subsection \<open>Predicates used in the properties\<close>

text \<open>The AGC invariant: the gain is not negative and gain times block peak is at
  most \<open>MAX_ANALOG / 2\<close>.\<close>

definition agc_ok :: "organ \<Rightarrow> bool" where
  "agc_ok s \<longleftrightarrow> 0 \<le> inputGain s \<and> inputGain s * sampleMax s \<le> MAX_ANALOG / 2"

text \<open>The two nested tests of the AGC correction: the de-biased sample is a new
  block peak and the current gain would take it over \<open>MAX_ANALOG / 2\<close>.\<close>

definition overshoot :: "real \<Rightarrow> organ \<Rightarrow> bool" where
  "overshoot rawSample s \<longleftrightarrow>
     \<bar>rawSample\<bar> > sampleMax s \<and> inputGain s * \<bar>rawSample\<bar> > MAX_ANALOG / 2"


text \<open>The gain over time: a run is a sequence of sample iterations and block ends
  (the recovery step); the trace lists the states it passes through.\<close>

datatype agc_event = Sample int real | BlockEnd

fun agc_step :: "agc_event \<Rightarrow> organ \<Rightarrow> organ" where
  "agc_step (Sample a w) s = sample_body a w s"
| "agc_step BlockEnd s = agc_recover s"

fun agc_trace :: "agc_event list \<Rightarrow> organ \<Rightarrow> organ list" where
  "agc_trace [] s = [s]"
| "agc_trace (e # es) s = s # agc_trace es (agc_step e s)"

fun is_sample :: "agc_event \<Rightarrow> bool" where
  "is_sample (Sample a w) = True"
| "is_sample BlockEnd = False"

fun is_overshoot :: "agc_event \<Rightarrow> organ \<Rightarrow> bool" where
  "is_overshoot (Sample a w) s = overshoot (fst (remove_bias a s)) (snd (remove_bias a s))"
| "is_overshoot BlockEnd s = False"

fun no_overshoot :: "agc_event list \<Rightarrow> organ \<Rightarrow> bool" where
  "no_overshoot [] s = True"
| "no_overshoot (e # es) s = (\<not> is_overshoot e s \<and> no_overshoot es (agc_step e s))"

text \<open>A block is the sample events of its 320 readings followed by the block end.\<close>

definition block_events :: "(nat \<Rightarrow> int) \<Rightarrow> agc_event list" where
  "block_events adc = map (\<lambda>i. Sample (adc i) (hanningWindow ! i)) [0 ..< nat SAMPLE_SIZE] @ [BlockEnd]"

text \<open>\<open>r\<close> is \<open>x\<close> wrapped cyclically into the hue range: in \<open>[0, 1]\<close> and
  congruent to \<open>x\<close> modulo 1.\<close>

definition cyclic_wrap_of :: "real \<Rightarrow> real \<Rightarrow> bool" where
  "cyclic_wrap_of x r \<longleftrightarrow> 0 \<le> r \<and> r \<le> 1 \<and> frac (r - x) = 0"

text \<open>A buffer entry within the valid range \<open>[0, MAX_ANALOG]\<close>.\<close>

definition valid_pixel :: "float_RGB \<Rightarrow> bool" where
  "valid_pixel c =
     (case c of (cr, cg, cb) \<Rightarrow>
        0 \<le> cr \<and> cr \<le> MAX_ANALOG \<and> 0 \<le> cg \<and> cg \<le> MAX_ANALOG \<and> 0 \<le> cb \<and> cb \<le> MAX_ANALOG)"

text \<open>An LED whose three bytes are between 0 and \<open>n\<close>.\<close>

definition led_at_most :: "int \<Rightarrow> CRGB \<Rightarrow> bool" where
  "led_at_most n c =
     (case c of (lr, lg, lb) \<Rightarrow> 0 \<le> lr \<and> lr \<le> n \<and> 0 \<le> lg \<and> lg \<le> n \<and> 0 \<le> lb \<and> lb \<le> n)"

text \<open>Every entry of the frame buffer that \<open>ShowBuffer\<close> reads is valid.\<close>

definition buffer_valid :: "state \<Rightarrow> bool" where
  "buffer_valid s \<longleftrightarrow> (\<forall>i < TOTAL_LEDS. valid_pixel (buffer s ! i))"

text \<open>A frame buffer at full white.\<close>

definition white_buffer_state :: state where
  "white_buffer_state = setup_state\<lparr>buffer := replicate TOTAL_LEDS (4095, 4095, 4095)\<rparr>"

text \<open>The quiet color components are within \<open>[0, MAX_ANALOG]\<close>.\<close>

definition quiet_valid :: "state \<Rightarrow> bool" where
  "quiet_valid s \<longleftrightarrow> valid_pixel (quietRed s, quietGreen s, quietBlue s)"

text \<open>After \<^verbatim>\<open>setup()\<close>, the keys Quiet Color, Brighten (once: a dim white) and
  Color Organ.\<close>

definition dim_quiet_state :: state where
  "dim_quiet_state =
     key_event (\<lambda>_. 0) 0 0x08f7
       (key_event (\<lambda>_. 0) 0 0x708f (key_event (\<lambda>_. 0) 0 0x8877 setup_state))"

text \<open>The key code that the handler acts on in a pass, if any.\<close>

definition pressed :: "32 word \<Rightarrow> (nat \<times> 32 word) option \<Rightarrow> state \<Rightarrow> 32 word option" where
  "pressed now frame s =
     (case frame of
        None \<Rightarrow> None
      | Some fr \<Rightarrow> map_option (\<lambda>v. v AND 0xffff) (decoded_value fr (idle_reset now s)))"

text \<open>The mode state that the remote controls: mode, hue, saturation, brightness,
  animation period, sparkle settings and the quiet color snapshot.\<close>

definition mode_params ::
  "state \<Rightarrow> mode \<times> (real \<times> real \<times> real) \<times> int \<times> (bool \<times> int)
     \<times> (real \<times> real \<times> real) \<times> (real \<times> real \<times> real)" where
  "mode_params s =
     (currentState s, (hue s, saturation s, brightness s), slowAnimationTime s,
      (sparkle s, sparklesPerMinute s),
      (quietHue s, quietSaturation s, quietBrightness s),
      (quietRed s, quietGreen s, quietBlue s))"

text \<open>A pass of \<^verbatim>\<open>loop()\<close> is given by its time, its pending frame and the ADC readings
  of its block. A sequence of passes stops at the first error.\<close>

type_synonym pass = "32 word \<times> (nat \<times> 32 word) option \<times> (nat \<Rightarrow> int)"

fun run_passes :: "(nat \<Rightarrow> int) \<Rightarrow> pass list \<Rightarrow> state \<Rightarrow> error + state" where
  "run_passes rnd [] s = Inr s"
| "run_passes rnd ((now, frame, adc) # ps) s =
     (case loop rnd now frame adc s of
        Inl e \<Rightarrow> Inl e
      | Inr s' \<Rightarrow> run_passes rnd ps s')"

text \<open>No pass of the sequence acts on the On/Off key.\<close>

fun no_power_key :: "(nat \<Rightarrow> int) \<Rightarrow> pass list \<Rightarrow> state \<Rightarrow> bool" where
  "no_power_key rnd [] s = True"
| "no_power_key rnd ((now, frame, adc) # ps) s =
     (pressed now frame s \<noteq> Some 0x58a7
      \<and> (case loop rnd now frame adc s of
            Inl e \<Rightarrow> True
          | Inr s' \<Rightarrow> no_power_key rnd ps s'))"

text \<open>The all-dark frame.\<close>

definition blank_frame :: "CRGB list" where
  "blank_frame = replicate TOTAL_LEDS (0, 0, 0)"

text \<open>\<open>s'\<close> differs from \<open>s\<close> at most in the key bookkeeping (\<open>keyCode\<close>,
  \<open>repeatCount\<close>, \<open>keyTimer\<close>): mode state, power state, LEDs, display log, frame
  buffer, color organ state, animation timers and random generator are the same.\<close>

definition untouched :: "state \<Rightarrow> state \<Rightarrow> bool" where
  "untouched s s' \<longleftrightarrow>
     mode_params s' = mode_params s \<and> onOff s' = onOff s \<and> leds s' = leds s
     \<and> shown s' = shown s \<and> buffer s' = buffer s \<and> org s' = org s
     \<and> animationTimer s' = animationTimer s \<and> slowAnimationTimer s' = slowAnimationTimer s
     \<and> rng_pos s' = rng_pos s"

text \<open>Two passes while switched off: one without a frame, one with the Solid Color
  key.\<close>

definition off_passes :: "pass list" where
  "off_passes = [(10, None, \<lambda>_. 2048), (20, Some (1, 0x48b7), \<lambda>_. 2048)]"

text \<open>States reached from \<^verbatim>\<open>setup()\<close> by the Solid Color key (twice: animated at
  the minimum period; once: static), the former with the period at the maximum, and by
  the keys Quiet Color and Brighten.\<close>

definition solid_state :: state where
  "solid_state = key_event (\<lambda>_. 0) 0 0x48b7 (key_event (\<lambda>_. 0) 0 0x48b7 setup_state)"

definition solid_entry_state :: state where
  "solid_entry_state = key_event (\<lambda>_. 0) 0 0x48b7 setup_state"

definition solid_capped_state :: state where
  "solid_capped_state = solid_state\<lparr>slowAnimationTime := MAX_ANIMATION_TIME\<rparr>"

definition quiet_edit_state :: state where
  "quiet_edit_state = key_event (\<lambda>_. 0) 0 0x708f (key_event (\<lambda>_. 0) 0 0x8877 setup_state)"

text \<open>The quiet snapshot equals the HSB triple and its RGB.\<close>

definition snapshot_current :: "state \<Rightarrow> bool" where
  "snapshot_current s \<longleftrightarrow>
     quietHue s = hue s \<and> quietSaturation s = saturation s \<and> quietBrightness s = brightness s
     \<and> (quietRed s, quietGreen s, quietBlue s)
         = apply_sat_bright (saturation s) (brightness s) (Hue (hue s))"

section \<open>Verified properties\<close>

subsection \<open>The sampling loop\<close>

lemma length_hanningWindow: "length hanningWindow = nat SAMPLE_SIZE"
  by (simp add: hanningWindow_def)

lemma sampling_loop_fold:
  "0 \<le> k \<Longrightarrow> k \<le> SAMPLE_SIZE \<Longrightarrow>
   sampling_loop adc k s =
     Inr (fold (\<lambda>i. sample_body (adc i) (hanningWindow ! i)) [nat k ..< nat SAMPLE_SIZE] s)"
proof (induction adc k s rule: sampling_loop.induct)
  case (1 adc sampleCount s)
  show ?case
  proof (cases "sampleCount < SAMPLE_SIZE")
    case False
    with 1(3) have "sampleCount = SAMPLE_SIZE" by simp
    then show ?thesis by (subst sampling_loop.simps) simp
  next
    case True
    have inb: "0 \<le> sampleCount + 1 - 1 \<and> sampleCount + 1 - 1 < int (length hanningWindow)"
      using True 1(2) by (simp add: length_hanningWindow)
    have IH: "sampling_loop adc (sampleCount + 1)
                (sample_body (adc (nat sampleCount)) (hanningWindow ! nat (sampleCount + 1 - 1)) s) =
              Inr (fold (\<lambda>i. sample_body (adc i) (hanningWindow ! i))
                     [nat (sampleCount + 1) ..< nat SAMPLE_SIZE]
                     (sample_body (adc (nat sampleCount)) (hanningWindow ! nat (sampleCount + 1 - 1)) s))"
      using 1(1)[OF True refl refl inb] True 1(2) by simp
    have up: "[nat sampleCount ..< nat SAMPLE_SIZE] =
              nat sampleCount # [nat (sampleCount + 1) ..< nat SAMPLE_SIZE]"
      using True 1(2) by (simp add: upt_conv_Cons nat_add_distrib)
    show ?thesis
      using True inb IH by (subst sampling_loop.simps) (simp add: up Let_def)
  qed
qed

text \<open>
  Claim C10. The sampling loop of a block never reads outside \<open>hanningWindow\<close>: started
  with \<open>sampleCount = 0\<close> it returns normally, and what it computes is the loop body run
  exactly \<open>SAMPLE_SIZE\<close> = 320 times, the iteration that consumes the \<open>i\<close>-th reading
  using the window entry \<open>i\<close>, for \<open>i = 0, \<dots>, SAMPLE_SIZE - 1\<close>, each of which is an
  index of the 320-entry array.
\<close>

theorem sampling_loop_window_in_bounds:
  "sampling_loop adc 0 s =
     Inr (fold (\<lambda>i. sample_body (adc i) (hanningWindow ! i)) [0 ..< nat SAMPLE_SIZE] s)
   \<and> length [0 ..< nat SAMPLE_SIZE] = 320
   \<and> length hanningWindow = 320
   \<and> set [0 ..< nat SAMPLE_SIZE] = {i. i < length hanningWindow}"
proof -
  have n: "nat SAMPLE_SIZE = 320" by (simp add: SAMPLE_SIZE_def)
  have a: "sampling_loop adc 0 s =
     Inr (fold (\<lambda>i. sample_body (adc i) (hanningWindow ! i)) [nat 0 ..< nat SAMPLE_SIZE] s)"
    by (rule sampling_loop_fold) (simp_all add: SAMPLE_SIZE_def)
  have b: "length [0 ..< nat SAMPLE_SIZE] = 320" by (simp only: length_upt n diff_zero)
  have c: "length hanningWindow = 320" by (simp only: length_hanningWindow n)
  have d: "set [0 ..< nat SAMPLE_SIZE] = {i. i < length hanningWindow}"
    by (auto simp only: length_hanningWindow set_upt atLeastLessThan_iff)
  from a have a': "sampling_loop adc 0 s =
     Inr (fold (\<lambda>i. sample_body (adc i) (hanningWindow ! i)) [0 ..< nat SAMPLE_SIZE] s)"
    by (simp only: nat_0)
  from a' b c d show ?thesis by (intro conjI)
qed

subsection \<open>Automatic gain control\<close>


lemma agc_correct_overshoot:
  assumes "overshoot x s"
  shows "inputGain (agc_correct x s) = MAX_ANALOG / 2 / \<bar>x\<bar>"
    and "sampleMax (agc_correct x s) = \<bar>x\<bar>"
    and "0 < \<bar>x\<bar>"
    and "inputGain (agc_correct x s) < inputGain s"
proof -
  from assms have gt: "\<bar>x\<bar> > sampleMax s" and ov: "inputGain s * \<bar>x\<bar> > MAX_ANALOG / 2"
    by (simp_all add: overshoot_def)
  show g: "inputGain (agc_correct x s) = MAX_ANALOG / 2 / \<bar>x\<bar>"
    using gt ov by (simp add: agc_correct_def Let_def)
  show "sampleMax (agc_correct x s) = \<bar>x\<bar>"
    using gt ov by (simp add: agc_correct_def Let_def)
  show pos: "0 < \<bar>x\<bar>"
  proof (rule ccontr)
    assume "\<not> 0 < \<bar>x\<bar>"
    then have "\<bar>x\<bar> = 0" by simp
    with ov show False by (simp add: MAX_ANALOG_def)
  qed
  have "MAX_ANALOG / 2 / \<bar>x\<bar> < inputGain s"
    using ov pos by (simp add: divide_less_eq)
  then show "inputGain (agc_correct x s) < inputGain s" using g by simp
qed

lemma agc_correct_no_overshoot:
  assumes "\<not> overshoot x s"
  shows "inputGain (agc_correct x s) = inputGain s"
    and "sampleMax (agc_correct x s) = max \<bar>x\<bar> (sampleMax s)"
  using assms by (auto simp add: overshoot_def agc_correct_def Let_def)

lemma agc_correct_bound:
  assumes "agc_ok s"
  shows "agc_ok (agc_correct x s)" and "\<bar>x * inputGain (agc_correct x s)\<bar> \<le> MAX_ANALOG / 2"
proof -
  have "agc_ok (agc_correct x s) \<and> \<bar>x * inputGain (agc_correct x s)\<bar> \<le> MAX_ANALOG / 2"
  proof (cases "overshoot x s")
    case True
    note f = agc_correct_overshoot[OF True]
    have p1: "MAX_ANALOG / 2 / \<bar>x\<bar> * \<bar>x\<bar> = MAX_ANALOG / 2" using f(3) by simp
    have p2: "0 \<le> MAX_ANALOG / 2 / \<bar>x\<bar>" by (simp add: MAX_ANALOG_def)
    have "\<bar>x * (MAX_ANALOG / 2 / \<bar>x\<bar>)\<bar> = \<bar>x\<bar> * (MAX_ANALOG / 2 / \<bar>x\<bar>)"
      using p2 by (simp only: abs_mult abs_of_nonneg)
    also have "\<dots> = MAX_ANALOG / 2" using f(3) by simp
    finally have p3: "\<bar>x * (MAX_ANALOG / 2 / \<bar>x\<bar>)\<bar> = MAX_ANALOG / 2" .
    show ?thesis unfolding agc_ok_def f(1,2) using p1 p2 p3 by (simp only: order_refl simp_thms)
  next
    case False
    note f = agc_correct_no_overshoot[OF False]
    from assms have g0: "0 \<le> inputGain s" and pr: "inputGain s * sampleMax s \<le> MAX_ANALOG / 2"
      by (simp_all add: agc_ok_def)
    have le: "inputGain s * max \<bar>x\<bar> (sampleMax s) \<le> MAX_ANALOG / 2"
    proof (cases "\<bar>x\<bar> > sampleMax s")
      case True
      with False have "\<not> inputGain s * \<bar>x\<bar> > MAX_ANALOG / 2" by (simp add: overshoot_def)
      with True show ?thesis by (simp add: max_def)
    next
      case False
      with pr show ?thesis by (simp add: max_def)
    qed
    have "inputGain s * \<bar>x\<bar> \<le> inputGain s * max \<bar>x\<bar> (sampleMax s)"
      using g0 by (intro mult_left_mono) simp_all
    with le have "\<bar>x * inputGain s\<bar> \<le> MAX_ANALOG / 2"
      using g0 by (simp add: abs_mult mult.commute)
    with le g0 show ?thesis by (simp add: agc_ok_def f)
  qed
  then show "agc_ok (agc_correct x s)" and "\<bar>x * inputGain (agc_correct x s)\<bar> \<le> MAX_ANALOG / 2"
    by simp_all
qed

lemma remove_bias_agc: "inputGain (snd (remove_bias a s)) = inputGain s"
  "sampleMax (snd (remove_bias a s)) = sampleMax s"
  by (simp_all add: remove_bias_def Let_def)

lemma agc_ok_remove_bias: "agc_ok (snd (remove_bias a s)) = agc_ok s"
  by (simp add: agc_ok_def remove_bias_agc)

lemma sample_body_agc:
  "inputGain (sample_body a w s) = inputGain (snd (agc_sample a s))"
  "sampleMax (sample_body a w s) = sampleMax (snd (agc_sample a s))"
  by (simp_all add: sample_body_def Let_def split: prod.splits)

lemma agc_sample_snd: "snd (agc_sample a s) = agc_correct (fst (remove_bias a s)) (snd (remove_bias a s))"
  by (simp add: agc_sample_def Let_def split: prod.splits)


lemma agc_ok_sample_body: "agc_ok s \<Longrightarrow> agc_ok (sample_body a w s)"
proof -
  assume "agc_ok s"
  then have "agc_ok (snd (agc_sample a s))"
    by (simp add: agc_sample_snd agc_correct_bound(1) agc_ok_remove_bias)
  then show ?thesis by (simp add: agc_ok_def sample_body_agc)
qed

lemma agc_ok_fold:
  "agc_ok s \<Longrightarrow> agc_ok (fold (\<lambda>i. sample_body (adc i) (win i)) xs s)"
  by (induction xs arbitrary: s) (simp_all add: agc_ok_sample_body)




subsection \<open>Gain over time\<close>

lemma sample_body_gain_cases:
  "inputGain (sample_body a w s) =
     (if overshoot (fst (remove_bias a s)) (snd (remove_bias a s))
      then MAX_ANALOG / 2 / \<bar>fst (remove_bias a s)\<bar> else inputGain s)"
  by (simp add: sample_body_agc agc_sample_snd agc_correct_overshoot(1)
      agc_correct_no_overshoot(1) remove_bias_agc)

lemma sample_body_gain_le: "inputGain (sample_body a w s) \<le> inputGain s"
proof (cases "overshoot (fst (remove_bias a s)) (snd (remove_bias a s))")
  case True
  from agc_correct_overshoot(4)[OF True] show ?thesis
    by (simp add: sample_body_agc agc_sample_snd remove_bias_agc)
next
  case False
  then show ?thesis by (simp add: sample_body_gain_cases)
qed

lemma agc_recover_gain_ge: "inputGain s \<le> inputGain (agc_recover s)"
  by (simp add: agc_recover_def Let_def AGCalpha_def UPDATE_PERIOD_def AGC_TAU_def)

lemma agc_recover_gain:
  "inputGain (agc_recover s) =
     (if inputGain s < AGCboost then AGCboost * AGCalpha + (1 - AGCalpha) * inputGain s
      else inputGain s)"
  by (simp add: agc_recover_def Let_def)

lemma agc_step_up_only_at_block_end:
  "inputGain s < inputGain (agc_step e s) \<Longrightarrow> e = BlockEnd"
  using sample_body_gain_le by (cases e) (auto simp add: not_less[symmetric])

lemma quiet_step_gain_ge:
  "\<not> is_overshoot e s \<Longrightarrow> inputGain s \<le> inputGain (agc_step e s)"
  by (cases e) (simp_all add: sample_body_gain_cases agc_recover_gain_ge)

lemma trace_samples_le:
  "\<forall>e \<in> set es. is_sample e \<Longrightarrow> t \<in> set (agc_trace es s) \<Longrightarrow> inputGain t \<le> inputGain s"
proof (induction es arbitrary: s)
  case Nil
  then show ?case by simp
next
  case (Cons e es)
  from Cons.prems(1) obtain a w where e: "e = Sample a w" by (cases e) auto
  from Cons.prems(2) consider "t = s" | "t \<in> set (agc_trace es (agc_step e s))" by auto
  then show ?case
  proof cases
    case 1
    then show ?thesis by simp
  next
    case 2
    with Cons.IH Cons.prems(1) have "inputGain t \<le> inputGain (agc_step e s)" by simp
    also have "\<dots> \<le> inputGain s" by (simp add: e sample_body_gain_le)
    finally show ?thesis .
  qed
qed

lemma trace_samples_sorted:
  "\<forall>e \<in> set es. is_sample e \<Longrightarrow>
   sorted_wrt (\<lambda>s t. inputGain t \<le> inputGain s) (agc_trace es s)"
proof (induction es arbitrary: s)
  case Nil
  show ?case by simp
next
  case (Cons e es)
  have "\<forall>t \<in> set (agc_trace es (agc_step e s)). inputGain t \<le> inputGain s"
    using trace_samples_le[OF Cons.prems, of _ s] by simp
  with Cons show ?case by simp
qed

lemma trace_quiet_ge:
  "no_overshoot es s \<Longrightarrow> t \<in> set (agc_trace es s) \<Longrightarrow> inputGain s \<le> inputGain t"
proof (induction es arbitrary: s)
  case Nil
  then show ?case by simp
next
  case (Cons e es)
  from Cons.prems(2) consider "t = s" | "t \<in> set (agc_trace es (agc_step e s))" by auto
  then show ?case
  proof cases
    case 1
    then show ?thesis by simp
  next
    case 2
    have "inputGain s \<le> inputGain (agc_step e s)"
      using Cons.prems(1) by (simp add: quiet_step_gain_ge)
    also have "\<dots> \<le> inputGain t" using Cons.IH 2 Cons.prems(1) by simp
    finally show ?thesis .
  qed
qed

lemma trace_quiet_sorted:
  "no_overshoot es s \<Longrightarrow>
   sorted_wrt (\<lambda>s t. inputGain s \<le> inputGain t) (agc_trace es s)"
proof (induction es arbitrary: s)
  case Nil
  show ?case by simp
next
  case (Cons e es)
  have "\<forall>t \<in> set (agc_trace es (agc_step e s)). inputGain s \<le> inputGain t"
    using trace_quiet_ge[OF Cons.prems, of _] by simp
  with Cons show ?case by simp
qed

lemma agc_trace_nonempty: "agc_trace es s \<noteq> []"
  by (cases es) simp_all

lemma last_trace_fold: "last (agc_trace es s) = fold agc_step es s"
  by (induction es arbitrary: s) (simp_all add: agc_trace_nonempty)

lemma fold_sample_events:
  "fold agc_step (map (\<lambda>i. Sample (adc i) (win i)) xs) s = fold (\<lambda>i. sample_body (adc i) (win i)) xs s"
  by (induction xs arbitrary: s) simp_all

lemma block_events_run:
  "Inr (last (agc_trace (block_events adc) s)) = map_sum id agc_recover (sampling_loop adc 0 s)"
  using sampling_loop_fold[of 0 adc s]
  by (simp add: last_trace_fold block_events_def fold_sample_events SAMPLE_SIZE_def)

text \<open>
  Claim C4. A sample iteration never raises the gain, so along any run of sample
  iterations (in particular the 320 of a block) every later gain is at most every
  earlier one; a step that raises the gain is the recovery step at a block end; the
  recovery step never lowers the gain; and along any run in which no sample is an
  overshoot (no downward correction happens), across any number of blocks, every later
  gain is at least every earlier one.
\<close>

theorem agc_gain_monotone:
  "inputGain (sample_body a w s) \<le> inputGain s
   \<and> ((\<forall>e \<in> set es. is_sample e) \<longrightarrow>
        sorted_wrt (\<lambda>s t. inputGain t \<le> inputGain s) (agc_trace es s))
   \<and> (inputGain s < inputGain (agc_step e s) \<longrightarrow> e = BlockEnd)
   \<and> inputGain s \<le> inputGain (agc_recover s)
   \<and> (no_overshoot es s \<longrightarrow>
        sorted_wrt (\<lambda>s t. inputGain s \<le> inputGain t) (agc_trace es s))"
  using sample_body_gain_le trace_samples_sorted agc_step_up_only_at_block_end
    agc_recover_gain_ge trace_quiet_sorted by blast


theorem agc_gain_monotone_witness:
  "list_all is_sample [Sample 2048 1]
   \<and> inputGain initial_organ < inputGain (agc_step BlockEnd initial_organ)
   \<and> no_overshoot [Sample 2048 1, BlockEnd] initial_organ
   \<and> sorted_wrt (\<lambda>s t. inputGain t \<le> inputGain s) (agc_trace [Sample 2048 1] initial_organ)
   \<and> BlockEnd = BlockEnd
   \<and> sorted_wrt (\<lambda>s t. inputGain s \<le> inputGain t)
        (agc_trace [Sample 2048 1, BlockEnd] initial_organ)"
proof -
  have h1: "\<forall>e \<in> set [Sample 2048 1]. is_sample e" by simp
  have h2: "inputGain initial_organ < inputGain (agc_step BlockEnd initial_organ)"
    by (simp add: agc_recover_def initial_organ_def AGCboost_def AGCalpha_def Let_def
        UPDATE_PERIOD_def AGC_TAU_def)
  have h3: "no_overshoot [Sample 2048 1, BlockEnd] initial_organ"
    by (simp add: overshoot_def remove_bias_agc initial_organ_def MAX_ANALOG_def)
  have h1': "list_all is_sample [Sample 2048 1]" by simp
  show ?thesis
    using h1 h1' h2 h3
      agc_gain_monotone [where es = "[Sample 2048 1]" and s = initial_organ and e = BlockEnd]
      agc_gain_monotone [where es = "[Sample 2048 1, BlockEnd]" and s = initial_organ
        and e = BlockEnd]
    by blast
qed

subsection \<open>Hue validation\<close>

text \<open>
  Claim C5 as stated fails: nudged to \<open>65/64\<close>, the hue becomes 0, which is not
  congruent to \<open>65/64\<close> modulo 1 (the cyclic wrap would be \<open>1/64\<close>).
\<close>

theorem MakeHueValid_not_cyclic: "\<not> cyclic_wrap_of (65 / 64) (MakeHueValid (65 / 64))"
proof -
  have "MakeHueValid (65 / 64) = 0" by (simp add: MakeHueValid_def)
  moreover have "frac (0 - 65 / 64 :: real) = 63 / 64" by (simp add: frac_def)
  ultimately show ?thesis by (simp add: cyclic_wrap_of_def)
qed

text \<open>
  Claim C5, amended. For every input above 1 \<open>MakeHueValid\<close> returns 0 and for every
  input below 0 it returns 1: the opposite end of the hue range, not the nearest
  endpoint; an input in \<open>[0, 1]\<close> is returned unchanged, so the result is always in
  \<open>[0, 1]\<close>. The two ends are the same color: \<open>Hue 0 = Hue 1\<close>.
\<close>

theorem MakeHueValid_resets:
  "(1 < x \<longrightarrow> MakeHueValid x = 0)
   \<and> (x < 0 \<longrightarrow> MakeHueValid x = 1)
   \<and> (0 \<le> x \<and> x \<le> 1 \<longrightarrow> MakeHueValid x = x)
   \<and> 0 \<le> MakeHueValid x \<and> MakeHueValid x \<le> 1
   \<and> Hue 0 = Hue 1"
proof -
  have "Hue 0 = Hue 1" by (simp add: Hue_def Let_def makeValid_def MAX_ANALOG_def)
  then show ?thesis by (simp add: MakeHueValid_def Let_def)
qed

theorem MakeHueValid_resets_witness:
  "(1::real) < 65 / 64 \<and> MakeHueValid (65 / 64) = 0
   \<and> (- 1 / 64 :: real) < 0 \<and> MakeHueValid (- 1 / 64) = 1
   \<and> (0::real) \<le> 1 / 2 \<and> (1 / 2 :: real) \<le> 1 \<and> MakeHueValid (1 / 2) = 1 / 2"
  using MakeHueValid_resets [of "65 / 64"] MakeHueValid_resets [of "- 1 / 64"]
    MakeHueValid_resets [of "1 / 2"]
  by simp

subsection \<open>Quantization of the frame buffer\<close>

lemma makeValid_range: "0 \<le> makeValid v" "makeValid v \<le> MAX_ANALOG"
  by (simp_all add: makeValid_def Let_def MAX_ANALOG_def)

lemma makeValid_mono: "a \<le> b \<Longrightarrow> makeValid a \<le> makeValid b"
  by (simp add: makeValid_def Let_def MAX_ANALOG_def)

lemma byte_of_int: "0 \<le> k \<Longrightarrow> k < 256 \<Longrightarrow> byte (of_int k) = k"
  by (simp add: byte_def)

lemma quantize_range:
  assumes "0 \<le> q" "q \<le> MAX_ANALOG"
  shows "byte (c_round (q / 16.6)) = \<lfloor>q / 16.6 + 1 / 2\<rfloor>"
    and "0 \<le> byte (c_round (q / 16.6))" and "byte (c_round (q / 16.6)) \<le> 247"
proof -
  have nn: "0 \<le> q / 16.6" using assms(1) by simp
  have "q / 16.6 + 1 / 2 < 248" using assms(2) by (simp add: MAX_ANALOG_def)
  then have up: "\<lfloor>q / 16.6 + 1 / 2\<rfloor> < 248" by (simp add: floor_less_iff)
  have lo: "0 \<le> \<lfloor>q / 16.6 + 1 / 2\<rfloor>" using nn by simp
  have cr: "c_round (q / 16.6) = of_int \<lfloor>q / 16.6 + 1 / 2\<rfloor>"
    using nn by (simp only: c_round_def if_True)
  show e: "byte (c_round (q / 16.6)) = \<lfloor>q / 16.6 + 1 / 2\<rfloor>"
    unfolding cr using lo up by (intro byte_of_int) simp_all
  show "0 \<le> byte (c_round (q / 16.6))" unfolding e by (rule lo)
  show "byte (c_round (q / 16.6)) \<le> 247" unfolding e using up by simp
qed

lemma show_led_at_most:
  assumes "valid_pixel c"
  shows "led_at_most 247 (show_led c)"
proof -
  obtain cr cg cb where c: "c = (cr, cg, cb)" by (cases c)
  from assms have v: "0 \<le> cr" "cr \<le> MAX_ANALOG" "0 \<le> cg" "cg \<le> MAX_ANALOG"
    "0 \<le> cb" "cb \<le> MAX_ANALOG"
    by (simp_all add: valid_pixel_def c)
  note r = quantize_range(2,3)[OF v(1,2)]
  note g = quantize_range(2,3)[OF v(3,4)]
  note b = quantize_range(2,3)[OF v(5,6)]
  show ?thesis
    unfolding c show_led_def Let_def led_at_most_def
    using r g b by (simp only: split_conv) auto
qed

lemma apply_sat_bright_valid: "valid_pixel (apply_sat_bright sat bri c)"
  by (cases c) (simp add: apply_sat_bright_def valid_pixel_def Let_def makeValid_range)

lemma rainbow_pixels_valid: "p \<in> set (rainbow_pixels n h sat bri) \<Longrightarrow> valid_pixel p"
  by (induction n arbitrary: h) (auto simp add: Let_def apply_sat_bright_valid)

lemma length_rainbow_pixels: "length (rainbow_pixels n h sat bri) = n"
  by (induction n arbitrary: h) (simp_all add: Let_def)

lemma buffer_valid_solid: "buffer_valid (CreateSolidColor h sat bri s)"
  by (simp add: buffer_valid_def CreateSolidColor_def apply_sat_bright_valid)

lemma buffer_valid_rainbow: "buffer_valid (CreateRainbow h sat bri s)"
  by (auto simp add: buffer_valid_def CreateRainbow_def length_rainbow_pixels
      intro!: rainbow_pixels_valid nth_mem)

lemma buffer_valid_random: "buffer_valid (CreateRandom rnd sat bri s)"
  by (simp add: buffer_valid_def CreateRandom_def apply_sat_bright_valid)

lemma leds_ShowBuffer: "leds (ShowBuffer s) = map (\<lambda>i. show_led (buffer s ! i)) [0 ..< TOTAL_LEDS]"
  by (simp add: ShowBuffer_def FastLED_show_def)

lemma ShowBuffer_at_most:
  "buffer_valid s \<Longrightarrow> \<forall>c \<in> set (leds (ShowBuffer s)). led_at_most 247 c"
  by (auto simp add: leds_ShowBuffer buffer_valid_def show_led_at_most)

text \<open>
  Claim C9. When every entry of the frame buffer is within \<open>[0, MAX_ANALOG]\<close>, every
  byte that \<open>ShowBuffer\<close> writes to an LED is at most 247; the buffers that
  \<open>CreateSolidColor\<close>, \<open>CreateRainbow\<close> and \<open>CreateRandom\<close> build are within that
  range, whatever the hue, saturation and brightness, so these effects never command
  255 on any channel.
\<close>

theorem ShowBuffer_never_full_brightness:
  "(buffer_valid s \<longrightarrow> (\<forall>c \<in> set (leds (ShowBuffer s)). led_at_most 247 c))
   \<and> (\<forall>c \<in> set (leds (ShowBuffer (CreateSolidColor h sat bri s))). led_at_most 247 c)
   \<and> (\<forall>c \<in> set (leds (ShowBuffer (CreateRainbow h sat bri s))). led_at_most 247 c)
   \<and> (\<forall>c \<in> set (leds (ShowBuffer (CreateRandom rnd sat bri s))). led_at_most 247 c)
   \<and> length (leds (ShowBuffer s)) = TOTAL_LEDS"
  using ShowBuffer_at_most buffer_valid_solid buffer_valid_rainbow buffer_valid_random
  by (simp add: leds_ShowBuffer)


lemma show_led_white: "show_led (4095, 4095, 4095) = (247, 247, 247)"
  by (simp add: show_led_def c_round_def byte_def Let_def)

lemma total_leds: "TOTAL_LEDS = 200"
  by (simp add: TOTAL_LEDS_def NUMBER_STRINGS_def LEDS_PER_STRING_def)

lemma map_nth_replicate: "map (\<lambda>i. f (replicate n c ! i)) [0 ..< n] = replicate n (f c)"
  by (simp add: list_eq_iff_nth_eq)

theorem ShowBuffer_never_full_brightness_witness:
  "buffer_valid white_buffer_state
   \<and> (247, 247, 247) \<in> set (leds (ShowBuffer white_buffer_state))
   \<and> led_at_most 247 (247, 247, 247)
   \<and> list_all (led_at_most 247) (leds (ShowBuffer white_buffer_state))"
proof -
  have h: "buffer_valid white_buffer_state"
    by (simp add: buffer_valid_def white_buffer_state_def valid_pixel_def MAX_ANALOG_def)
  have l: "leds (ShowBuffer white_buffer_state) = replicate TOTAL_LEDS (247, 247, 247)"
    by (simp add: leds_ShowBuffer white_buffer_state_def map_nth_replicate show_led_white)
  have m: "(247, 247, 247) \<in> set (leds (ShowBuffer white_buffer_state))"
    unfolding l by (simp add: total_leds)
  show ?thesis
    using h m ShowBuffer_never_full_brightness [of white_buffer_state]
    unfolding list_all_iff by blast
qed

subsection \<open>Brightness mapping\<close>

lemma log10_tenth: "log 10 (1 / 10) = (- 1 :: real)"
  by (simp add: log_divide)

lemma dB_scale_zero: "dB_scale g 0 = NegInf"
  by (simp add: dB_scale_def makeValid_def Let_def MAX_ANALOG_def)

lemma dB_scale_red_tenth: "dB_scale RED_GAIN 81.9 = Fin 51"
proof -
  have m: "makeValid (RED_GAIN * 81.9) = 409.5"
    by (simp add: makeValid_def Let_def MAX_ANALOG_def RED_GAIN_def)
  have d: "(409.5 :: real) / MAX_ANALOG = 1 / 10" by (simp add: MAX_ANALOG_def)
  have "dB_scale RED_GAIN 81.9 = Fin (255 - 255 * 20 * log 10 (1 / 10) / (- DYNAMIC_RANGE))"
    unfolding dB_scale_def Let_def m d by simp
  also have "\<dots> = Fin 51" unfolding log10_tenth by (simp add: DYNAMIC_RANGE_def)
  finally show ?thesis .
qed

lemma quantize_full: "byte (c_round (4095 / 16.6)) = 247"
  by (simp add: c_round_def byte_def)

text \<open>
  Claim C2 as stated fails in its second half: with a full white quiet color the red
  brightness is 247 at peak 0 (below the floor, quiet color substituted) and 51 at the
  larger peak 81.9 (above the floor).
\<close>

theorem channel_brightness_not_monotone:
  "(0::real) \<le> 81.9
   \<and> channel_brightness RED_GAIN 4095 0 = 247
   \<and> channel_brightness RED_GAIN 4095 81.9 = 51"
proof -
  have a: "channel_brightness RED_GAIN 4095 0 = 247"
    unfolding channel_brightness_def quiet_subst_def dB_scale_zero below_zero.simps if_True
      quantize_full by simp
  have b: "channel_brightness RED_GAIN 4095 81.9 = 51"
    unfolding channel_brightness_def quiet_subst_def dB_scale_red_tenth by simp
  from a b show ?thesis by simp
qed

lemma dB_scale_cases:
  "dB_scale g p =
     (if makeValid (g * p) = 0 then NegInf
      else Fin (255 + 204 * log 10 (makeValid (g * p) / MAX_ANALOG)))"
  by (simp add: dB_scale_def Let_def DYNAMIC_RANGE_def)

lemma log_clamped_nonpos:
  assumes "makeValid v \<noteq> 0"
  shows "log 10 (makeValid v / MAX_ANALOG) \<le> 0"
proof -
  have "0 < makeValid v" using assms makeValid_range(1)[of v] by simp
  then have "0 < makeValid v / MAX_ANALOG" by (simp add: MAX_ANALOG_def)
  moreover have "makeValid v / MAX_ANALOG \<le> 1"
    using makeValid_range(2)[of v] by (simp add: MAX_ANALOG_def)
  ultimately show ?thesis by simp
qed

lemma channel_brightness_range:
  assumes "0 \<le> quiet" "quiet \<le> MAX_ANALOG"
  shows "0 \<le> channel_brightness g quiet p" "channel_brightness g quiet p \<le> 255"
proof -
  note q = quantize_range(2,3)[OF assms]
  have "0 \<le> channel_brightness g quiet p \<and> channel_brightness g quiet p \<le> 255"
  proof (cases "below_zero (dB_scale g p)")
    case True
    then show ?thesis using q by (simp add: channel_brightness_def quiet_subst_def)
  next
    case False
    then have nz: "makeValid (g * p) \<noteq> 0"
      and ge: "0 \<le> 255 + 204 * log 10 (makeValid (g * p) / MAX_ANALOG)"
      by (auto simp add: dB_scale_cases not_less split: if_splits)
    from log_clamped_nonpos[OF nz]
    have "255 + 204 * log 10 (makeValid (g * p) / MAX_ANALOG) \<le> 255" by simp
    with False nz ge show ?thesis
      by (simp add: channel_brightness_def quiet_subst_def dB_scale_cases)
  qed
  then show "0 \<le> channel_brightness g quiet p" "channel_brightness g quiet p \<le> 255"
    by simp_all
qed

lemma channel_brightness_mono_above_floor:
  assumes "0 < g" "p1 \<le> p2" "\<not> below_zero (dB_scale g p1)"
  shows "\<not> below_zero (dB_scale g p2)"
    and "channel_brightness g quiet p1 \<le> channel_brightness g quiet p2"
proof -
  let ?b1 = "makeValid (g * p1)" and ?b2 = "makeValid (g * p2)"
  from assms(3) have nz1: "?b1 \<noteq> 0"
    and ge1: "0 \<le> 255 + 204 * log 10 (?b1 / MAX_ANALOG)"
    by (auto simp add: dB_scale_cases not_less split: if_splits)
  have "g * p1 \<le> g * p2" using assms(1,2) by simp
  then have le: "?b1 \<le> ?b2" by (rule makeValid_mono)
  have pos1: "0 < ?b1" using nz1 makeValid_range(1)[of "g * p1"] by simp
  with le have pos2: "0 < ?b2" by simp
  have "log 10 (?b1 / MAX_ANALOG) \<le> log 10 (?b2 / MAX_ANALOG)"
    using pos1 pos2 le by (simp add: MAX_ANALOG_def)
  then have v: "255 + 204 * log 10 (?b1 / MAX_ANALOG)
                \<le> 255 + 204 * log 10 (?b2 / MAX_ANALOG)" by simp
  from pos2 have nz2: "?b2 \<noteq> 0" by simp
  show nb2: "\<not> below_zero (dB_scale g p2)"
    using nz2 ge1 v by (simp add: dB_scale_cases)
  show "channel_brightness g quiet p1 \<le> channel_brightness g quiet p2"
    using assms(3) nb2 nz1 nz2 v
    by (simp add: channel_brightness_def quiet_subst_def dB_scale_cases)
qed

lemma channel_brightness_below_floor:
  "below_zero (dB_scale g p) \<Longrightarrow>
   channel_brightness g quiet p = of_int (byte (c_round (quiet / 16.6)))"
  by (simp add: channel_brightness_def quiet_subst_def)


lemma quiet_valid_UpdateQuietColor: "quiet_valid (UpdateQuietColor s)"
proof -
  obtain qr qg qb where
    e: "apply_sat_bright (saturation s) (brightness s) (Hue (hue s)) = (qr, qg, qb)"
    by (cases "apply_sat_bright (saturation s) (brightness s) (Hue (hue s))")
  have "valid_pixel (qr, qg, qb)" using apply_sat_bright_valid[of "saturation s" "brightness s" "Hue (hue s)"]
    by (simp add: e)
  then show ?thesis by (simp add: quiet_valid_def UpdateQuietColor_def Let_def e)
qed

lemma quiet_valid_setup: "quiet_valid setup_state"
  using quiet_valid_UpdateQuietColor by (simp add: setup_state_def Let_def quiet_valid_def)

lemma organ_rgb_range:
  assumes "quiet_valid s"
  shows "case organ_rgb s o1 of (r, g, b) \<Rightarrow>
           0 \<le> r \<and> r \<le> 255 \<and> 0 \<le> g \<and> g \<le> 255 \<and> 0 \<le> b \<and> b \<le> 255"
proof -
  from assms have q: "0 \<le> quietRed s" "quietRed s \<le> MAX_ANALOG" "0 \<le> quietGreen s"
    "quietGreen s \<le> MAX_ANALOG" "0 \<le> quietBlue s" "quietBlue s \<le> MAX_ANALOG"
    by (simp_all add: quiet_valid_def valid_pixel_def)
  note r = channel_brightness_range[OF q(1,2), of RED_GAIN "peakRed o1"]
  note g = channel_brightness_range[OF q(3,4), of GREEN_GAIN "peakGreen o1"]
  note b = channel_brightness_range[OF q(5,6), of BLUE_GAIN "peakBlue o1"]
  show ?thesis unfolding organ_rgb_def Let_def using r g b by auto
qed

text \<open>
  Claim C2, amended. With the quiet components in \<open>[0, MAX_ANALOG]\<close> (as
  \<open>UpdateQuietColor\<close> leaves them), the brightness of a channel (gain, clamp, dB
  scaling, quiet color substitution) is in \<open>[0, 255]\<close> for every peak, and so are
  the three values after the flicker rule. Over the peaks at or above the dynamic-range
  floor the brightness is monotonically non-decreasing in the peak; below the floor it
  is the constant quantized quiet component.
\<close>

theorem brightness_mapper_range:
  "(0 \<le> quiet \<and> quiet \<le> MAX_ANALOG \<longrightarrow>
      0 \<le> channel_brightness gain quiet peak \<and> channel_brightness gain quiet peak \<le> 255)
   \<and> (quiet_valid s \<longrightarrow>
        (case organ_rgb s o1 of (r, g, b) \<Rightarrow>
           0 \<le> r \<and> r \<le> 255 \<and> 0 \<le> g \<and> g \<le> 255 \<and> 0 \<le> b \<and> b \<le> 255))
   \<and> (0 < gain \<and> p1 \<le> p2 \<and> \<not> below_zero (dB_scale gain p1) \<longrightarrow>
        \<not> below_zero (dB_scale gain p2)
        \<and> channel_brightness gain quiet p1 \<le> channel_brightness gain quiet p2)
   \<and> (below_zero (dB_scale gain p1) \<longrightarrow>
        channel_brightness gain quiet p1 = of_int (byte (c_round (quiet / 16.6))))"
proof (intro conjI impI)
  assume "0 \<le> quiet \<and> quiet \<le> MAX_ANALOG"
  then show "0 \<le> channel_brightness gain quiet peak"
    and "channel_brightness gain quiet peak \<le> 255"
    by (simp_all add: channel_brightness_range)
next
  assume "quiet_valid s"
  then show "case organ_rgb s o1 of (r, g, b) \<Rightarrow>
           0 \<le> r \<and> r \<le> 255 \<and> 0 \<le> g \<and> g \<le> 255 \<and> 0 \<le> b \<and> b \<le> 255"
    by (rule organ_rgb_range)
next
  assume a: "0 < gain \<and> p1 \<le> p2 \<and> \<not> below_zero (dB_scale gain p1)"
  then show "\<not> below_zero (dB_scale gain p2)"
    using channel_brightness_mono_above_floor(1)[of gain p1 p2] by simp
  from a show "channel_brightness gain quiet p1 \<le> channel_brightness gain quiet p2"
    using channel_brightness_mono_above_floor(2)[of gain p1 p2 quiet] by simp
next
  assume "below_zero (dB_scale gain p1)"
  then show "channel_brightness gain quiet p1 = of_int (byte (c_round (quiet / 16.6)))"
    by (rule channel_brightness_below_floor)
qed

theorem brightness_mapper_range_witness:
  "(0::real) \<le> 4095 \<and> 4095 \<le> MAX_ANALOG
   \<and> 0 \<le> channel_brightness RED_GAIN 4095 81.9 \<and> channel_brightness RED_GAIN 4095 81.9 \<le> 255
   \<and> quiet_valid setup_state
   \<and> 0 < RED_GAIN \<and> (81.9::real) \<le> 819 \<and> \<not> below_zero (dB_scale RED_GAIN 81.9)
   \<and> channel_brightness RED_GAIN 4095 81.9 \<le> channel_brightness RED_GAIN 4095 819
   \<and> below_zero (dB_scale RED_GAIN 0)
   \<and> channel_brightness RED_GAIN 4095 0 = of_int (byte (c_round (4095 / 16.6)))"
proof -
  have h1: "(0::real) \<le> 4095 \<and> 4095 \<le> MAX_ANALOG" by (simp add: MAX_ANALOG_def)
  have h2: "quiet_valid setup_state" by (rule quiet_valid_setup)
  have h3: "0 < RED_GAIN \<and> (81.9::real) \<le> 819 \<and> \<not> below_zero (dB_scale RED_GAIN 81.9)"
    unfolding dB_scale_red_tenth by (simp add: RED_GAIN_def)
  have h4: "below_zero (dB_scale RED_GAIN 0)" by (simp add: dB_scale_zero)
  show ?thesis
    using h1 h2 h3 h4
      brightness_mapper_range [where quiet = 4095 and gain = RED_GAIN and peak = "81.9"
        and ?p1.0 = "81.9" and ?p2.0 = 819 and s = setup_state]
      brightness_mapper_range [where quiet = 4095 and gain = RED_GAIN and ?p1.0 = 0]
    by blast
qed

lemma byte_range: "0 \<le> byte x" "byte x < 256"
  by (simp_all add: byte_def)

lemma byte_byte: "byte (of_int (byte x)) = byte x"
  using byte_range[of x] by (simp add: byte_of_int)

lemma byte_bump:
  assumes "of_int (byte x) < (23::real)"
  shows "byte (of_int (byte x) + 1) = byte x + 1"
proof -
  from assms have "byte x < 23" by linarith
  moreover have "of_int (byte x) + (1::real) = of_int (byte x + 1)" by simp
  ultimately show ?thesis
    using byte_range(1)[of x] by (simp only: byte_of_int)
qed


subsection \<open>Quiet color substitution\<close>

lemma setup_fields:
  "onOff setup_state" "currentState setup_state = ColorOrgan"
  "quietSaturation setup_state = 0" "quietHue setup_state = 0" "quietBrightness setup_state = 0"
  "saturation setup_state = 1" "brightness setup_state = 1" "hue setup_state = 0"
  by (simp_all add: setup_state_def Let_def UpdateQuietColor_def DEFAULT_QUIET_HUE_def
      DEFAULT_QUIET_SATURATION_def DEFAULT_QUIET_BRIGHTNESS_def split: prod.splits)

lemma dim_quiet_rgb:
  "quietRed dim_quiet_state = 15.9705" "quietGreen dim_quiet_state = 15.9705"
  "quietBlue dim_quiet_state = 15.9705"
  by (simp_all add: dim_quiet_state_def key_event_def dispatch_def refresh_def Let_def
      setup_fields update_if_quiet_def UpdateQuietColor_def ShowBuffer_def FastLED_show_def
      CreateSolidColor_def BRIGHT_LSB_def Hue_def apply_sat_bright_def makeValid_def
      MAX_ANALOG_def split: prod.splits)

lemma quantize_dim: "byte (c_round (15.9705 / 16.6)) = 1"
  by (simp add: c_round_def byte_def)

text \<open>
  Claim C3 as stated fails for the blue channel: with the dim white quiet color and
  silence all three channels are below the floor and quantize to 1, and the rendered
  blue is 2.
\<close>

theorem quiet_substitution_blue_bumped:
  "below_zero (dB_scale BLUE_GAIN (peakBlue initial_organ))
   \<and> byte (c_round (quietBlue dim_quiet_state / 16.6)) = 1
   \<and> organ_frame dim_quiet_state initial_organ = replicate TOTAL_LEDS (1, 1, 2)"
proof -
  have p: "peakRed initial_organ = 0" "peakGreen initial_organ = 0" "peakBlue initial_organ = 0"
    by (simp_all add: initial_organ_def)
  have c: "channel_brightness RED_GAIN (quietRed dim_quiet_state) (peakRed initial_organ) = 1"
    "channel_brightness GREEN_GAIN (quietGreen dim_quiet_state) (peakGreen initial_organ) = 1"
    "channel_brightness BLUE_GAIN (quietBlue dim_quiet_state) (peakBlue initial_organ) = 1"
    unfolding p dim_quiet_rgb channel_brightness_def quiet_subst_def dB_scale_zero
      below_zero.simps if_True quantize_dim by simp_all
  have "organ_rgb dim_quiet_state initial_organ = (1, 1, 2)"
    unfolding organ_rgb_def c Let_def by simp
  then have f: "organ_frame dim_quiet_state initial_organ = replicate TOTAL_LEDS (1, 1, 2)"
    by (simp add: organ_frame_def byte_def)
  have a: "below_zero (dB_scale BLUE_GAIN (peakBlue initial_organ))"
    unfolding p dB_scale_zero by simp
  have b: "byte (c_round (quietBlue dim_quiet_state / 16.6)) = 1"
    unfolding dim_quiet_rgb by (rule quantize_dim)
  from a b f show ?thesis by simp
qed

lemma channel_brightness_above_floor:
  "\<not> below_zero (dB_scale g p) \<Longrightarrow> dB_scale g p = Fin (channel_brightness g quiet p)"
  by (cases "dB_scale g p") (simp_all add: channel_brightness_def quiet_subst_def)

text \<open>
  Claim C3, amended. Every LED gets the bytes of the three channel values. For red and
  for green: when the dB brightness of the channel is below zero, the rendered byte is
  the quantized quiet component \<open>round(quiet / 16.6)\<close>; otherwise the channel value
  is the dB brightness itself. For blue the same holds, except that when the three
  channel values are equal, nonzero and below 23 the rendered blue is one more (the
  rule against flicker of dim whites).
\<close>

theorem quiet_substitution:
  "let r = channel_brightness RED_GAIN (quietRed s) (peakRed o1);
       g = channel_brightness GREEN_GAIN (quietGreen s) (peakGreen o1);
       b = channel_brightness BLUE_GAIN (quietBlue s) (peakBlue o1);
       bump = (r = g \<and> g = b \<and> b < 23 \<and> b \<noteq> 0);
       lb = byte (if bump then b + 1 else b)
   in organ_frame s o1 = replicate TOTAL_LEDS (byte r, byte g, lb)
      \<and> (below_zero (dB_scale RED_GAIN (peakRed o1)) \<longrightarrow>
           byte r = byte (c_round (quietRed s / 16.6)))
      \<and> (\<not> below_zero (dB_scale RED_GAIN (peakRed o1)) \<longrightarrow>
           dB_scale RED_GAIN (peakRed o1) = Fin r)
      \<and> (below_zero (dB_scale GREEN_GAIN (peakGreen o1)) \<longrightarrow>
           byte g = byte (c_round (quietGreen s / 16.6)))
      \<and> (\<not> below_zero (dB_scale GREEN_GAIN (peakGreen o1)) \<longrightarrow>
           dB_scale GREEN_GAIN (peakGreen o1) = Fin g)
      \<and> (below_zero (dB_scale BLUE_GAIN (peakBlue o1)) \<longrightarrow>
           lb = byte (c_round (quietBlue s / 16.6)) + (if bump then 1 else 0))
      \<and> (\<not> below_zero (dB_scale BLUE_GAIN (peakBlue o1)) \<longrightarrow>
           dB_scale BLUE_GAIN (peakBlue o1) = Fin b)"
proof -
  define r where "r = channel_brightness RED_GAIN (quietRed s) (peakRed o1)"
  define g where "g = channel_brightness GREEN_GAIN (quietGreen s) (peakGreen o1)"
  define b where "b = channel_brightness BLUE_GAIN (quietBlue s) (peakBlue o1)"
  define bump where "bump \<longleftrightarrow> r = g \<and> g = b \<and> b < 23 \<and> b \<noteq> 0"
  have f: "organ_frame s o1 = replicate TOTAL_LEDS (byte r, byte g, byte (if bump then b + 1 else b))"
    by (simp add: organ_frame_def organ_rgb_def Let_def r_def g_def b_def bump_def)
  have rq: "below_zero (dB_scale RED_GAIN (peakRed o1)) \<Longrightarrow> byte r = byte (c_round (quietRed s / 16.6))"
    by (simp add: r_def channel_brightness_below_floor byte_byte)
  have gq: "below_zero (dB_scale GREEN_GAIN (peakGreen o1)) \<Longrightarrow> byte g = byte (c_round (quietGreen s / 16.6))"
    by (simp add: g_def channel_brightness_below_floor byte_byte)
  have bq: "byte (if bump then b + 1 else b) = byte (c_round (quietBlue s / 16.6)) + (if bump then 1 else 0)"
    if bz: "below_zero (dB_scale BLUE_GAIN (peakBlue o1))"
  proof -
    have e: "b = of_int (byte (c_round (quietBlue s / 16.6)))"
      using bz by (simp add: b_def channel_brightness_below_floor)
    show ?thesis
    proof (cases bump)
      case True
      then have "of_int (byte (c_round (quietBlue s / 16.6))) < (23::real)"
        using e by (simp add: bump_def)
      from byte_bump[OF this] True show ?thesis by (simp add: e)
    next
      case False
      then show ?thesis by (simp add: e byte_byte)
    qed
  qed
  have ra: "\<not> below_zero (dB_scale RED_GAIN (peakRed o1)) \<Longrightarrow> dB_scale RED_GAIN (peakRed o1) = Fin r"
    unfolding r_def by (rule channel_brightness_above_floor)
  have ga: "\<not> below_zero (dB_scale GREEN_GAIN (peakGreen o1)) \<Longrightarrow> dB_scale GREEN_GAIN (peakGreen o1) = Fin g"
    unfolding g_def by (rule channel_brightness_above_floor)
  have ba: "\<not> below_zero (dB_scale BLUE_GAIN (peakBlue o1)) \<Longrightarrow> dB_scale BLUE_GAIN (peakBlue o1) = Fin b"
    unfolding b_def by (rule channel_brightness_above_floor)
  show ?thesis
    unfolding Let_def r_def[symmetric] g_def[symmetric] b_def[symmetric] bump_def[symmetric]
    using f rq gq bq ra ga ba by blast
qed

theorem quiet_substitution_witness:
  "below_zero (dB_scale RED_GAIN (peakRed initial_organ))
   \<and> below_zero (dB_scale GREEN_GAIN (peakGreen initial_organ))
   \<and> below_zero (dB_scale BLUE_GAIN (peakBlue initial_organ))
   \<and> \<not> below_zero (dB_scale RED_GAIN (peakRed (initial_organ\<lparr>peakRed := 81.9\<rparr>)))
   \<and> organ_frame dim_quiet_state initial_organ = replicate TOTAL_LEDS (1, 1, 1 + 1)
   \<and> dB_scale RED_GAIN (peakRed (initial_organ\<lparr>peakRed := 81.9\<rparr>))
       = Fin (channel_brightness RED_GAIN (quietRed dim_quiet_state)
                (peakRed (initial_organ\<lparr>peakRed := 81.9\<rparr>)))"
proof -
  have p: "peakRed initial_organ = 0" "peakGreen initial_organ = 0" "peakBlue initial_organ = 0"
    by (simp_all add: initial_organ_def)
  have h1: "below_zero (dB_scale RED_GAIN (peakRed initial_organ))"
    "below_zero (dB_scale GREEN_GAIN (peakGreen initial_organ))"
    "below_zero (dB_scale BLUE_GAIN (peakBlue initial_organ))"
    unfolding p dB_scale_zero by simp_all
  have h2: "\<not> below_zero (dB_scale RED_GAIN (peakRed (initial_organ\<lparr>peakRed := 81.9\<rparr>)))"
    by (simp add: dB_scale_red_tenth)
  have c: "channel_brightness RED_GAIN (quietRed dim_quiet_state) (peakRed initial_organ) = 1"
    "channel_brightness GREEN_GAIN (quietGreen dim_quiet_state) (peakGreen initial_organ) = 1"
    "channel_brightness BLUE_GAIN (quietBlue dim_quiet_state) (peakBlue initial_organ) = 1"
    unfolding p dim_quiet_rgb channel_brightness_def quiet_subst_def dB_scale_zero
      below_zero.simps if_True quantize_dim by simp_all
  have t1: "organ_frame dim_quiet_state initial_organ = replicate TOTAL_LEDS (1, 1, 1 + 1)"
  proof -
    have "organ_frame dim_quiet_state initial_organ =
        replicate TOTAL_LEDS (byte 1, byte 1,
          byte (if (1::real) = 1 \<and> (1::real) = 1 \<and> (1::real) < 23 \<and> (1::real) \<noteq> 0
                then 1 + 1 else 1))"
      using quiet_substitution [of dim_quiet_state initial_organ]
      unfolding Let_def c by (rule conjunct1)
    then show ?thesis by (simp add: byte_def)
  qed
  have t2: "dB_scale RED_GAIN (peakRed (initial_organ\<lparr>peakRed := 81.9\<rparr>))
       = Fin (channel_brightness RED_GAIN (quietRed dim_quiet_state)
                (peakRed (initial_organ\<lparr>peakRed := 81.9\<rparr>)))"
    using quiet_substitution [of dim_quiet_state "initial_organ\<lparr>peakRed := 81.9\<rparr>"] h2
    unfolding Let_def by blast
  from h1 h2 t1 t2 show ?thesis by blast
qed

subsection \<open>Invariants of the passes of \<^verbatim>\<open>loop()\<close>\<close>

text \<open>Every pass returns normally, and the AGC invariant and the validity of the quiet
  color, which hold after \<^verbatim>\<open>setup()\<close>, hold after every pass: only the color organ
  touches its state, and only \<open>UpdateQuietColor\<close> writes the quiet color.\<close>

lemma org_display [simp]:
  "org (FastLED_show s) = org s"
  "org (ShowBuffer s) = org s"
  "org (CreateSolidColor h sat bri s) = org s"
  "org (CreateRainbow h sat bri s) = org s"
  "org (CreateRandom rnd sat bri s) = org s"
  "org (Blink s) = org s"
  "org (UpdateQuietColor s) = org s"
  "org (Sparkle rnd s) = org s"
  by (simp_all add: FastLED_show_def ShowBuffer_def CreateSolidColor_def CreateRainbow_def
      CreateRandom_def Blink_def UpdateQuietColor_def Sparkle_def Let_def split: prod.splits)

lemma quiet_valid_display [simp]:
  "quiet_valid (FastLED_show s) = quiet_valid s"
  "quiet_valid (ShowBuffer s) = quiet_valid s"
  "quiet_valid (CreateSolidColor h sat bri s) = quiet_valid s"
  "quiet_valid (CreateRainbow h sat bri s) = quiet_valid s"
  "quiet_valid (CreateRandom rnd sat bri s) = quiet_valid s"
  "quiet_valid (Blink s) = quiet_valid s"
  "quiet_valid (Sparkle rnd s) = quiet_valid s"
  by (simp_all add: quiet_valid_def FastLED_show_def ShowBuffer_def CreateSolidColor_def
      CreateRainbow_def CreateRandom_def Blink_def Sparkle_def Let_def)

lemma org_slow_down [simp]: "org (slow_down start now s) = org s"
  by (simp add: slow_down_def Let_def)

lemma quiet_valid_slow_down [simp]: "quiet_valid (slow_down start now s) = quiet_valid s"
proof -
  have "quiet_valid (s\<lparr>slowAnimationTime := a, slowAnimationTimer := b\<rparr>) = quiet_valid s"
    "quiet_valid (s\<lparr>slowAnimationTime := a\<rparr>) = quiet_valid s" for a b
    by (simp_all add: quiet_valid_def)
  then show ?thesis by (simp add: slow_down_def Let_def)
qed

lemma org_update_if_quiet [simp]: "org (update_if_quiet s) = org s"
  by (simp add: update_if_quiet_def)

lemma org_dispatch: "org (dispatch now s) = org s"
  by (simp add: dispatch_def Let_def)

lemma quiet_valid_update_if_quiet: "quiet_valid s \<Longrightarrow> quiet_valid (update_if_quiet s)"
  by (simp add: update_if_quiet_def quiet_valid_UpdateQuietColor)

lemma quiet_valid_upd [simp]:
  "quiet_valid (s\<lparr>currentState := a\<rparr>) = quiet_valid s"
  "quiet_valid (s\<lparr>slowAnimationTime := b\<rparr>) = quiet_valid s"
  "quiet_valid (s\<lparr>sparkle := c\<rparr>) = quiet_valid s"
  "quiet_valid (s\<lparr>saturation := d\<rparr>) = quiet_valid s"
  "quiet_valid (s\<lparr>hue := d\<rparr>) = quiet_valid s"
  "quiet_valid (s\<lparr>brightness := d\<rparr>) = quiet_valid s"
  "quiet_valid (s\<lparr>sparklesPerMinute := b\<rparr>) = quiet_valid s"
  "quiet_valid (s\<lparr>keyCode := k\<rparr>) = quiet_valid s"
  "quiet_valid (s\<lparr>keyTimer := k\<rparr>) = quiet_valid s"
  "quiet_valid (s\<lparr>repeatCount := k\<rparr>) = quiet_valid s"
  "quiet_valid (s\<lparr>onOff := c\<rparr>) = quiet_valid s"
  "quiet_valid (s\<lparr>leds := l\<rparr>) = quiet_valid s"
  "quiet_valid (s\<lparr>org := og\<rparr>) = quiet_valid s"
  "quiet_valid (s\<lparr>animationTimer := k\<rparr>) = quiet_valid s"
  "quiet_valid (s\<lparr>slowAnimationTimer := k\<rparr>) = quiet_valid s"
  by (simp_all add: quiet_valid_def)

lemma quiet_valid_dispatch: "quiet_valid s \<Longrightarrow> quiet_valid (dispatch now s)"
  by (simp add: dispatch_def Let_def quiet_valid_update_if_quiet)

lemma org_refresh [simp]: "org (refresh rnd s) = org s"
  by (simp add: refresh_def Let_def)

lemma quiet_valid_refresh [simp]: "quiet_valid (refresh rnd s) = quiet_valid s"
  by (simp add: refresh_def Let_def)

lemma org_key_event: "org (key_event rnd now v s) = org s"
  by (simp add: key_event_def Let_def power_key_def org_dispatch)

lemma quiet_valid_key_event: "quiet_valid s \<Longrightarrow> quiet_valid (key_event rnd now v s)"
  by (simp add: key_event_def Let_def power_key_def quiet_valid_dispatch)

lemma org_remote: "org (remote rnd now frame s) = org s"
  by (simp add: remote_def Let_def idle_reset_def count_repeat_def org_key_event
      split: option.splits)

lemma quiet_valid_remote: "quiet_valid s \<Longrightarrow> quiet_valid (remote rnd now frame s)"
  by (simp add: remote_def Let_def idle_reset_def count_repeat_def quiet_valid_key_event
      split: option.splits)

lemma org_fixed_effects: "org (fixed_effects rnd now s) = org s"
  by (simp add: fixed_effects_def slow_animation_def Let_def)

lemma quiet_valid_fixed_effects: "quiet_valid (fixed_effects rnd now s) = quiet_valid s"
  by (simp add: fixed_effects_def slow_animation_def Let_def)

lemma agc_ok_initial: "agc_ok initial_organ"
  by (simp add: agc_ok_def initial_organ_def MAX_ANALOG_def)

lemma AGCboost_pos: "0 < AGCboost"
  by (simp add: AGCboost_def)

lemma agc_ok_recover: "agc_ok s \<Longrightarrow> agc_ok (agc_recover s)"
proof -
  assume "agc_ok s"
  then have g: "0 \<le> inputGain s" by (simp add: agc_ok_def)
  have "0 \<le> AGCboost * AGCalpha + (1 - AGCalpha) * inputGain s"
    using g AGCboost_pos by (simp add: AGCalpha_def UPDATE_PERIOD_def AGC_TAU_def)
  with g show ?thesis by (simp add: agc_ok_def agc_recover_def Let_def MAX_ANALOG_def)
qed

lemma ShowColorOrgan_total:
  "\<exists>s'. ShowColorOrgan adc s = Inr s'
        \<and> org s' = agc_recover (fold (\<lambda>i. sample_body (adc i) (hanningWindow ! i))
                                 [0 ..< nat SAMPLE_SIZE] (org s))
        \<and> quiet_valid s' = quiet_valid s"
  using sampling_loop_fold[of 0 adc "org s"]
  by (simp add: ShowColorOrgan_def SAMPLE_SIZE_def Let_def)

lemma loop_invariants:
  assumes "agc_ok (org s)" "quiet_valid s"
  shows "\<exists>s'. loop rnd now frame adc s = Inr s' \<and> agc_ok (org s') \<and> quiet_valid s'"
proof -
  let ?r = "remote rnd now frame s"
  have a: "agc_ok (org ?r)" using assms(1) by (simp add: org_remote)
  have q: "quiet_valid ?r" using assms(2) by (rule quiet_valid_remote)
  from ShowColorOrgan_total[of adc ?r] obtain s1 where
    s1: "ShowColorOrgan adc ?r = Inr s1"
    "org s1 = agc_recover (fold (\<lambda>i. sample_body (adc i) (hanningWindow ! i))
                                 [0 ..< nat SAMPLE_SIZE] (org ?r))"
    "quiet_valid s1 = quiet_valid ?r" by blast
  have a1: "agc_ok (org s1)" unfolding s1(2) using a by (intro agc_ok_recover agc_ok_fold)
  show ?thesis
    using a q s1(1,3) a1
    by (simp add: loop_def run_mode_def org_fixed_effects quiet_valid_fixed_effects)
qed

lemma run_passes_invariants:
  "agc_ok (org s) \<Longrightarrow> quiet_valid s \<Longrightarrow>
   \<exists>s'. run_passes rnd ps s = Inr s' \<and> agc_ok (org s') \<and> quiet_valid s'"
proof (induction ps arbitrary: s)
  case Nil
  then show ?case by simp
next
  case (Cons p ps)
  obtain now frame adc where p: "p = (now, frame, adc)" by (cases p)
  from loop_invariants[OF Cons.prems, of rnd now frame adc]
  obtain s1 where "loop rnd now frame adc s = Inr s1" "agc_ok (org s1)" "quiet_valid s1"
    by blast
  with Cons.IH[of s1] show ?case by (simp add: p)
qed

lemma reachable_invariants:
  "\<exists>s. run_passes rnd ps setup_state = Inr s \<and> agc_ok (org s) \<and> quiet_valid s"
proof -
  have "org setup_state = initial_organ"
    by (simp add: setup_state_def Let_def UpdateQuietColor_def split: prod.splits)
  then have "agc_ok (org setup_state)" by (simp add: agc_ok_initial)
  then show ?thesis using quiet_valid_setup by (rule run_passes_invariants)
qed

subsection \<open>On/Off\<close>

lemma mode_params_show [simp]:
  "mode_params (FastLED_show s) = mode_params s"
  "mode_params (ShowBuffer s) = mode_params s"
  "mode_params (CreateSolidColor h sat bri s) = mode_params s"
  "mode_params (CreateRainbow h sat bri s) = mode_params s"
  "mode_params (CreateRandom rnd sat bri s) = mode_params s"
  "mode_params (Blink s) = mode_params s"
  by (simp_all add: mode_params_def FastLED_show_def ShowBuffer_def CreateSolidColor_def
      CreateRainbow_def CreateRandom_def Blink_def)

lemma onOff_show [simp]:
  "onOff (FastLED_show s) = onOff s"
  "onOff (ShowBuffer s) = onOff s"
  "onOff (CreateSolidColor h sat bri s) = onOff s"
  "onOff (CreateRainbow h sat bri s) = onOff s"
  "onOff (CreateRandom rnd sat bri s) = onOff s"
  "onOff (Blink s) = onOff s"
  by (simp_all add: FastLED_show_def ShowBuffer_def CreateSolidColor_def
      CreateRainbow_def CreateRandom_def Blink_def)

lemma currentState_show [simp]:
  "currentState (FastLED_show s) = currentState s"
  "currentState (ShowBuffer s) = currentState s"
  "currentState (CreateSolidColor h sat bri s) = currentState s"
  "currentState (CreateRainbow h sat bri s) = currentState s"
  "currentState (CreateRandom rnd sat bri s) = currentState s"
  "currentState (Blink s) = currentState s"
  by (simp_all add: FastLED_show_def ShowBuffer_def CreateSolidColor_def
      CreateRainbow_def CreateRandom_def Blink_def)

lemma refresh_keeps [simp]:
  "mode_params (refresh rnd s) = mode_params s" "onOff (refresh rnd s) = onOff s"
  by (simp_all add: refresh_def Let_def)

lemma dispatch_power: "keyCode s = 0x58a7 \<Longrightarrow> dispatch now s = s"
  by (simp add: dispatch_def Let_def)

lemma power_off:
  assumes "onOff s" "v AND 0xffff = 0x58a7"
  shows "key_event rnd now v s =
           FastLED_show (s\<lparr>keyCode := 0x58a7, keyTimer := now, onOff := False, leds := blank_frame\<rparr>)"
  using assms by (simp add: key_event_def power_key_def Let_def blank_frame_def FastLED_show_def)

lemma power_on:
  assumes "\<not> onOff s" "v AND 0xffff = 0x58a7"
  shows "key_event rnd now v s =
           refresh rnd (s\<lparr>keyCode := 0x58a7, keyTimer := now, onOff := True\<rparr>)"
  using assms by (simp add: key_event_def power_key_def Let_def dispatch_power)

lemma other_key_off:
  assumes "\<not> onOff s" "v AND 0xffff \<noteq> 0x58a7"
  shows "key_event rnd now v s = s\<lparr>keyCode := v AND 0xffff, keyTimer := now\<rparr>"
  using assms by (simp add: key_event_def Let_def)

lemma untouched_refl: "untouched s s"
  by (simp add: untouched_def)

lemma untouched_trans: "untouched s t \<Longrightarrow> untouched t u \<Longrightarrow> untouched s u"
  by (simp add: untouched_def)


lemma idle_reset_untouched: "untouched s (idle_reset now s)"
  by (simp add: idle_reset_def untouched_def mode_params_def)

lemma count_repeat_untouched: "untouched s (count_repeat now fr s)"
  by (simp add: count_repeat_def untouched_def mode_params_def)

lemma other_key_off_untouched:
  assumes "\<not> onOff s" "v AND 0xffff \<noteq> 0x58a7"
  shows "untouched s (key_event rnd now v s)"
  unfolding other_key_off[OF assms] by (simp add: untouched_def mode_params_def)

lemma remote_off_untouched:
  assumes off: "\<not> onOff s" and np: "pressed now frame s \<noteq> Some 0x58a7"
  shows "untouched s (remote rnd now frame s)"
proof (cases frame)
  case None
  then show ?thesis by (simp add: remote_def Let_def idle_reset_untouched)
next
  case (Some fr)
  let ?s1 = "idle_reset now s" and ?s2 = "count_repeat now fr (idle_reset now s)"
  have u2: "untouched s ?s2"
    using idle_reset_untouched count_repeat_untouched by (rule untouched_trans)
  show ?thesis
  proof (cases "decoded_value fr ?s1")
    case None
    with Some u2 show ?thesis by (simp add: remote_def Let_def)
  next
    case (Some v)
    with np \<open>frame = Some fr\<close> have nv: "v AND 0xffff \<noteq> 0x58a7"
      by (simp add: pressed_def)
    have "\<not> onOff ?s2" using u2 off by (simp add: untouched_def)
    from other_key_off_untouched[OF this nv] u2
    have "untouched s (key_event rnd now v ?s2)" by (rule untouched_trans[rotated])
    with Some \<open>frame = Some fr\<close> show ?thesis by (simp add: remote_def Let_def)
  qed
qed

lemma run_mode_off: "\<not> onOff s \<Longrightarrow> run_mode rnd now adc s = Inr s"
  by (simp add: run_mode_def)

lemma loop_off_untouched:
  assumes "\<not> onOff s" "pressed now frame s \<noteq> Some 0x58a7"
  shows "\<exists>s'. loop rnd now frame adc s = Inr s' \<and> untouched s s'"
proof -
  from remote_off_untouched[OF assms] have u: "untouched s (remote rnd now frame s)" .
  then have "\<not> onOff (remote rnd now frame s)" using assms(1) by (simp add: untouched_def)
  then show ?thesis using u by (simp add: loop_def run_mode_off)
qed

lemma run_passes_off_untouched:
  "\<not> onOff s \<Longrightarrow> no_power_key rnd ps s \<Longrightarrow>
   \<exists>s'. run_passes rnd ps s = Inr s' \<and> untouched s s'"
proof (induction ps arbitrary: s)
  case Nil
  then show ?case by (simp add: untouched_refl)
next
  case (Cons p ps)
  obtain now frame adc where p: "p = (now, frame, adc)" by (cases p)
  from Cons.prems(2) have np: "pressed now frame s \<noteq> Some 0x58a7" by (simp add: p)
  from loop_off_untouched[OF Cons.prems(1) np]
  obtain s1 where l: "loop rnd now frame adc s = Inr s1" and u: "untouched s s1" by blast
  from u Cons.prems(1) have off1: "\<not> onOff s1" by (simp add: untouched_def)
  from Cons.prems(2) l have "no_power_key rnd ps s1" by (simp add: p)
  from Cons.IH[OF off1 this] obtain s' where r: "run_passes rnd ps s1 = Inr s'"
    and u': "untouched s1 s'" by blast
  from untouched_trans[OF u u'] r l show ?case by (simp add: p)
qed

lemma pressed_power_remote:
  assumes "pressed now frame s = Some 0x58a7"
  obtains fr v where "frame = Some fr" "decoded_value fr (idle_reset now s) = Some v"
    "v AND 0xffff = 0x58a7"
    "remote rnd now frame s = key_event rnd now v (count_repeat now fr (idle_reset now s))"
proof -
  from assms obtain fr where f: "frame = Some fr" by (cases frame) (simp_all add: pressed_def)
  with assms obtain v where d: "decoded_value fr (idle_reset now s) = Some v"
    and v: "v AND 0xffff = 0x58a7" by (auto simp add: pressed_def)
  have "remote rnd now frame s = key_event rnd now v (count_repeat now fr (idle_reset now s))"
    by (simp add: remote_def Let_def f d)
  with f d v that show ?thesis by blast
qed

lemma remote_power_off:
  assumes on: "onOff s" and pw: "pressed now frame s = Some 0x58a7"
  shows "\<not> onOff (remote rnd now frame s)"
    and "leds (remote rnd now frame s) = blank_frame"
    and "shown (remote rnd now frame s) = blank_frame # shown s"
    and "mode_params (remote rnd now frame s) = mode_params s"
    and "org (remote rnd now frame s) = org s"
    and "loop rnd now frame adc s = Inr (remote rnd now frame s)"
proof -
  from pw obtain fr v where v: "v AND 0xffff = 0x58a7"
    and r: "remote rnd now frame s = key_event rnd now v (count_repeat now fr (idle_reset now s))"
    by (rule pressed_power_remote)
  let ?s2 = "count_repeat now fr (idle_reset now s)"
  have u: "untouched s ?s2"
    using idle_reset_untouched count_repeat_untouched by (rule untouched_trans)
  then have on2: "onOff ?s2" using on by (simp add: untouched_def)
  note e = power_off[OF on2 v, of rnd now]
  show off: "\<not> onOff (remote rnd now frame s)" unfolding r e by (simp add: FastLED_show_def)
  show "leds (remote rnd now frame s) = blank_frame" unfolding r e by (simp add: FastLED_show_def)
  show "shown (remote rnd now frame s) = blank_frame # shown s"
    unfolding r e using u by (simp add: FastLED_show_def untouched_def)
  show "mode_params (remote rnd now frame s) = mode_params s"
    unfolding r e using u by (simp add: untouched_def mode_params_def FastLED_show_def)
  show "org (remote rnd now frame s) = org s"
    unfolding r e using u by (simp add: untouched_def FastLED_show_def)
  show "loop rnd now frame adc s = Inr (remote rnd now frame s)"
    using off by (simp add: loop_def run_mode_off)
qed

lemma remote_power_on:
  assumes off: "\<not> onOff s" and pw: "pressed now frame s = Some 0x58a7"
  shows "onOff (remote rnd now frame s)"
    and "mode_params (remote rnd now frame s) = mode_params s"
proof -
  from pw obtain fr v where v: "v AND 0xffff = 0x58a7"
    and r: "remote rnd now frame s = key_event rnd now v (count_repeat now fr (idle_reset now s))"
    by (rule pressed_power_remote)
  let ?s2 = "count_repeat now fr (idle_reset now s)"
  have u: "untouched s ?s2"
    using idle_reset_untouched count_repeat_untouched by (rule untouched_trans)
  then have off2: "\<not> onOff ?s2" using off by (simp add: untouched_def)
  note e = power_on[OF off2 v, of rnd now]
  show "onOff (remote rnd now frame s)" unfolding r e by simp
  show "mode_params (remote rnd now frame s) = mode_params s"
    unfolding r e using u by (simp add: untouched_def) (simp add: mode_params_def)
qed


lemma pressed_plain:
  "v \<noteq> 0xffffffff \<Longrightarrow> v \<noteq> 0 \<Longrightarrow> pressed now (Some (1, v)) s = Some (v AND 0xffff)"
  by (simp add: pressed_def decoded_value_def Let_def)

lemma mode_params_Sparkle [simp]:
  "mode_params (Sparkle rnd s) = mode_params s" "onOff (Sparkle rnd s) = onOff s"
  by (simp_all add: Sparkle_def Let_def mode_params_def FastLED_show_def)

lemma run_mode_static:
  assumes "slowAnimationTime s = 0"
  shows "\<exists>s'. run_mode rnd now adc s = Inr s' \<and> mode_params s' = mode_params s
              \<and> onOff s' = onOff s"
proof -
  from ShowColorOrgan_total[of adc s] obtain s1 where
    s1: "ShowColorOrgan adc s = Inr s1" by blast
  then have m1: "mode_params s1 = mode_params s" "onOff s1 = onOff s"
    "currentState s1 = currentState s"
    by (auto simp add: ShowColorOrgan_def Let_def mode_params_def FastLED_show_def
        split: sum.splits)
  have fe: "mode_params (fixed_effects rnd now s) = mode_params s"
    "onOff (fixed_effects rnd now s) = onOff s"
  proof -
    have a: "slowAnimationTime (s\<lparr>animationTimer := now\<rparr>) = 0"
      "slowAnimationTime (Sparkle rnd (s\<lparr>animationTimer := now\<rparr>)) = 0"
      using assms by (simp_all add: Sparkle_def Let_def FastLED_show_def)
    have b: "mode_params (s\<lparr>animationTimer := now\<rparr>) = mode_params s"
      by (simp add: mode_params_def)
    show "mode_params (fixed_effects rnd now s) = mode_params s"
      "onOff (fixed_effects rnd now s) = onOff s"
      using assms a b by (simp_all add: fixed_effects_def slow_animation_def Let_def)
  qed
  show ?thesis
    using s1 m1 fe by (simp add: run_mode_def)
qed

lemma power_on_pass_static:
  assumes off: "\<not> onOff s" and pw: "pressed now frame s = Some 0x58a7"
    and st: "slowAnimationTime s = 0"
  shows "\<exists>s'. loop rnd now frame adc s = Inr s' \<and> onOff s' \<and> mode_params s' = mode_params s"
proof -
  let ?r = "remote rnd now frame s"
  note o = remote_power_on[OF off pw, of rnd]
  from o(2) st have "slowAnimationTime ?r = 0" by (simp add: mode_params_def)
  from run_mode_static[OF this, of rnd now adc] o show ?thesis by (auto simp add: loop_def)
qed

lemma off_on_sequence:
  assumes on: "onOff s" and pw: "pressed t1 f1 s = Some 0x58a7"
    and np: "no_power_key rnd ps (remote rnd t1 f1 s)"
  shows "\<exists>s_off. run_passes rnd ((t1, f1, a1) # ps) s = Inr s_off
           \<and> \<not> onOff s_off \<and> leds s_off = blank_frame \<and> shown s_off = blank_frame # shown s
           \<and> org s_off = org s \<and> mode_params s_off = mode_params s
           \<and> (\<forall>t2 f2. pressed t2 f2 s_off = Some 0x58a7 \<longrightarrow>
                 onOff (remote rnd t2 f2 s_off)
                 \<and> mode_params (remote rnd t2 f2 s_off) = mode_params s
                 \<and> (slowAnimationTime s = 0 \<longrightarrow>
                      (\<exists>s_on. loop rnd t2 f2 a2 s_off = Inr s_on \<and> onOff s_on
                         \<and> mode_params s_on = mode_params s)))"
proof -
  let ?s1 = "remote rnd t1 f1 s"
  note o = remote_power_off[OF on pw, of rnd]
  from run_passes_off_untouched[OF o(1) np]
  obtain s_off where r: "run_passes rnd ps ?s1 = Inr s_off" and u: "untouched ?s1 s_off"
    by blast
  have run: "run_passes rnd ((t1, f1, a1) # ps) s = Inr s_off"
    using o(6)[of a1] r by simp
  have off: "\<not> onOff s_off" using u o(1) by (simp add: untouched_def)
  have e_l: "leds s_off = blank_frame" using u o(2) by (simp add: untouched_def)
  have e_sh: "shown s_off = blank_frame # shown s" using u o(3) by (simp add: untouched_def)
  have e_og: "org s_off = org s" using u o(5) by (simp add: untouched_def)
  have e_mp: "mode_params s_off = mode_params s" using u o(4) by (simp add: untouched_def)
  have e_on: "onOff (remote rnd t2 f2 s_off) \<and> mode_params (remote rnd t2 f2 s_off) = mode_params s
        \<and> (slowAnimationTime s = 0 \<longrightarrow>
              (\<exists>s_on. loop rnd t2 f2 a2 s_off = Inr s_on \<and> onOff s_on
                 \<and> mode_params s_on = mode_params s))"
    if pw2: "pressed t2 f2 s_off = Some 0x58a7" for t2 f2
  proof -
    have "\<exists>s_on. loop rnd t2 f2 a2 s_off = Inr s_on \<and> onOff s_on
                 \<and> mode_params s_on = mode_params s"
      if "slowAnimationTime s = 0"
    proof -
      from that e_mp have "slowAnimationTime s_off = 0" by (simp add: mode_params_def)
      from power_on_pass_static[OF off pw2 this, of rnd a2] e_mp show ?thesis by simp
    qed
    with remote_power_on[OF off pw2, of rnd] e_mp show ?thesis by simp
  qed
  from run off e_l e_sh e_og e_mp e_on show ?thesis by blast
qed

text \<open>
  Claim C8. (1) A pass that acts on the On/Off key while ON switches OFF, blanks the
  LEDs and shows the blank frame, leaves the mode state (mode, hue, saturation,
  brightness, animation period, sparkle settings, quiet color snapshot) as it was, and
  runs nothing else. (2) While OFF, any sequence of passes none of which acts on the
  On/Off key runs without error and changes nothing but the key bookkeeping: no other key,
  no audio processing and no animation touches the mode state, the LEDs or the color
  organ state. (3) Acting on the On/Off key while OFF switches ON with the mode state
  unchanged when the handler of the key returns; the same pass then resumes the mode,
  and with a static mode (animation period 0) the mode state is unchanged after the
  whole pass, while an animated mode goes on animating its hue. (4) Hence after OFF, any
  such passes and ON, the mode state has exactly its values from before OFF.
\<close>

theorem power_off_on_restores:
  "(onOff s \<and> pressed now frame s = Some 0x58a7 \<longrightarrow>
      loop rnd now frame adc s = Inr (remote rnd now frame s)
      \<and> \<not> onOff (remote rnd now frame s)
      \<and> leds (remote rnd now frame s) = blank_frame
      \<and> shown (remote rnd now frame s) = blank_frame # shown s
      \<and> mode_params (remote rnd now frame s) = mode_params s)
   \<and> (\<not> onOff s \<and> no_power_key rnd ps s \<longrightarrow>
        (\<exists>s'. run_passes rnd ps s = Inr s' \<and> untouched s s'))
   \<and> (\<not> onOff s \<and> pressed now frame s = Some 0x58a7 \<longrightarrow>
        onOff (remote rnd now frame s)
        \<and> mode_params (remote rnd now frame s) = mode_params s
        \<and> (slowAnimationTime s = 0 \<longrightarrow>
             (\<exists>s'. loop rnd now frame adc s = Inr s' \<and> onOff s'
                \<and> mode_params s' = mode_params s)))
   \<and> (onOff s \<and> pressed now frame s = Some 0x58a7
        \<and> no_power_key rnd ps (remote rnd now frame s) \<longrightarrow>
        (\<exists>s_off. run_passes rnd ((now, frame, adc) # ps) s = Inr s_off
           \<and> \<not> onOff s_off \<and> leds s_off = blank_frame \<and> shown s_off = blank_frame # shown s
           \<and> org s_off = org s \<and> mode_params s_off = mode_params s
           \<and> (\<forall>t2 f2. pressed t2 f2 s_off = Some 0x58a7 \<longrightarrow>
                 onOff (remote rnd t2 f2 s_off)
                 \<and> mode_params (remote rnd t2 f2 s_off) = mode_params s
                 \<and> (slowAnimationTime s = 0 \<longrightarrow>
                      (\<exists>s_on. loop rnd t2 f2 a2 s_off = Inr s_on \<and> onOff s_on
                         \<and> mode_params s_on = mode_params s)))))"
proof (intro conjI impI)
  assume a: "onOff s \<and> pressed now frame s = Some 0x58a7"
  then have on: "onOff s" and pw: "pressed now frame s = Some 0x58a7" by simp_all
  note o = remote_power_off[OF on pw, of rnd]
  show "loop rnd now frame adc s = Inr (remote rnd now frame s)" by (rule o(6))
  show "\<not> onOff (remote rnd now frame s)" by (rule o(1))
  show "leds (remote rnd now frame s) = blank_frame" by (rule o(2))
  show "shown (remote rnd now frame s) = blank_frame # shown s" by (rule o(3))
  show "mode_params (remote rnd now frame s) = mode_params s" by (rule o(4))
next
  assume "\<not> onOff s \<and> no_power_key rnd ps s"
  then show "\<exists>s'. run_passes rnd ps s = Inr s' \<and> untouched s s'"
    using run_passes_off_untouched by blast
next
  assume a: "\<not> onOff s \<and> pressed now frame s = Some 0x58a7"
  then have off: "\<not> onOff s" and pw: "pressed now frame s = Some 0x58a7" by simp_all
  show "onOff (remote rnd now frame s)" by (rule remote_power_on(1)[OF off pw])
  show "mode_params (remote rnd now frame s) = mode_params s"
    by (rule remote_power_on(2)[OF off pw])
  show "\<exists>s'. loop rnd now frame adc s = Inr s' \<and> onOff s'
                \<and> mode_params s' = mode_params s"
    if "slowAnimationTime s = 0"
    using power_on_pass_static[OF off pw that] by blast
next
  assume "onOff s \<and> pressed now frame s = Some 0x58a7
        \<and> no_power_key rnd ps (remote rnd now frame s)"
  then show "\<exists>s_off. run_passes rnd ((now, frame, adc) # ps) s = Inr s_off
           \<and> \<not> onOff s_off \<and> leds s_off = blank_frame \<and> shown s_off = blank_frame # shown s
           \<and> org s_off = org s \<and> mode_params s_off = mode_params s
           \<and> (\<forall>t2 f2. pressed t2 f2 s_off = Some 0x58a7 \<longrightarrow>
                 onOff (remote rnd t2 f2 s_off)
                 \<and> mode_params (remote rnd t2 f2 s_off) = mode_params s
                 \<and> (slowAnimationTime s = 0 \<longrightarrow>
                      (\<exists>s_on. loop rnd t2 f2 a2 s_off = Inr s_on \<and> onOff s_on
                         \<and> mode_params s_on = mode_params s)))"
    using off_on_sequence by blast
qed

theorem power_off_on_restores_witness:
  "onOff setup_state
   \<and> pressed 0 (Some (1, 0x58a7)) setup_state = Some 0x58a7
   \<and> no_power_key (\<lambda>_. 0) off_passes (remote (\<lambda>_. 0) 0 (Some (1, 0x58a7)) setup_state)
   \<and> slowAnimationTime setup_state = 0
   \<and> (\<exists>s_off. run_passes (\<lambda>_. 0) ((0, Some (1, 0x58a7), \<lambda>_. 2048) # off_passes) setup_state
                 = Inr s_off
          \<and> \<not> onOff s_off \<and> leds s_off = blank_frame
          \<and> pressed 30 (Some (1, 0x58a7)) s_off = Some 0x58a7
          \<and> onOff (remote (\<lambda>_. 0) 30 (Some (1, 0x58a7)) s_off)
          \<and> mode_params (remote (\<lambda>_. 0) 30 (Some (1, 0x58a7)) s_off) = mode_params setup_state
          \<and> (\<exists>s_on. loop (\<lambda>_. 0) 30 (Some (1, 0x58a7)) (\<lambda>_. 2048) s_off = Inr s_on
                 \<and> onOff s_on \<and> mode_params s_on = mode_params setup_state))"
proof -
  have h1: "onOff setup_state" by (rule setup_fields(1))
  have pp: "pressed t (Some (1, 0x58a7)) s = Some 0x58a7" for t s
    using pressed_plain[of "0x58a7" t s] by simp
  have h2: "pressed 0 (Some (1, 0x58a7)) setup_state = Some 0x58a7" by (rule pp)
  have h3: "no_power_key (\<lambda>_. 0) off_passes (remote (\<lambda>_. 0) 0 (Some (1, 0x58a7)) setup_state)"
    by (simp add: off_passes_def pressed_def decoded_value_def Let_def split: sum.splits)
  have h4: "slowAnimationTime setup_state = 0" by (simp add: setup_state_def Let_def)
  from power_off_on_restores [of setup_state 0 "Some (1, 0x58a7)" "\<lambda>_. 0" "\<lambda>_. 2048" off_passes
      "\<lambda>_. 2048"] h1 h2 h3
  obtain s_off where
    "run_passes (\<lambda>_. 0) ((0, Some (1, 0x58a7), \<lambda>_. 2048) # off_passes) setup_state = Inr s_off"
    "\<not> onOff s_off" "leds s_off = blank_frame"
    "\<forall>t2 f2. pressed t2 f2 s_off = Some 0x58a7 \<longrightarrow>
        onOff (remote (\<lambda>_. 0) t2 f2 s_off)
        \<and> mode_params (remote (\<lambda>_. 0) t2 f2 s_off) = mode_params setup_state
        \<and> (slowAnimationTime setup_state = 0 \<longrightarrow>
             (\<exists>s_on. loop (\<lambda>_. 0) t2 f2 (\<lambda>_. 2048) s_off = Inr s_on \<and> onOff s_on
                \<and> mode_params s_on = mode_params setup_state))"
    by blast
  with h1 h2 h3 h4 pp[of 30 s_off] show ?thesis by blast
qed

subsection \<open>Animation speed of the Solid Color key\<close>

lemma key_event_on:
  assumes "onOff s" "v AND 0xffff \<noteq> 0x58a7"
  shows "key_event rnd now v s = refresh rnd (dispatch now (s\<lparr>keyCode := v AND 0xffff, keyTimer := now\<rparr>))"
  using assms by (simp add: key_event_def Let_def)

lemma shown_display [simp]:
  "shown (FastLED_show s) = leds s # shown s"
  "shown (ShowBuffer s) = leds (ShowBuffer s) # shown s"
  "shown (CreateSolidColor h sat bri s) = shown s"
  "shown (Blink s) = leds (ShowBuffer s) # blank_frame # shown s"
  by (simp_all add: FastLED_show_def ShowBuffer_def CreateSolidColor_def Blink_def blank_frame_def)

lemma refresh_solid:
  "currentState s = SolidColor \<Longrightarrow>
   refresh rnd s = ShowBuffer (CreateSolidColor (hue s) (saturation s) (brightness s) s)"
  by (simp add: refresh_def Let_def)

lemma refresh_quiet:
  "currentState s = QuietColor \<Longrightarrow>
   refresh rnd s = ShowBuffer (CreateSolidColor (hue s) (saturation s) (brightness s) s)"
  by (simp add: refresh_def Let_def)

lemma slow_down_cases:
  "slowAnimationTime (slow_down start now s) =
     (if slowAnimationTime s = 0 then start
      else if slowAnimationTime s * 2 > MAX_ANIMATION_TIME then MAX_ANIMATION_TIME
      else slowAnimationTime s * 2)"
  "shown (slow_down start now s) =
     (if slowAnimationTime s \<noteq> 0 \<and> slowAnimationTime s * 2 > MAX_ANIMATION_TIME
      then leds (ShowBuffer s) # blank_frame # shown s else shown s)"
  "currentState (slow_down start now s) = currentState s"
  "hue (slow_down start now s) = hue s"
  "saturation (slow_down start now s) = saturation s"
  "brightness (slow_down start now s) = brightness s"
  "onOff (slow_down start now s) = onOff s"
  by (simp_all add: slow_down_def Let_def Blink_def ShowBuffer_def FastLED_show_def blank_frame_def)

text \<open>
  Claim C6, amended. Pressing the Solid Color key while ON and already in SolidColor
  keeps the mode and the color; with the animation static it starts the animation at
  the minimum period; otherwise it doubles the period (the animation slows down) as
  long as the doubled period does not exceed the maximum; when it would exceed the
  maximum the period is set to exactly the maximum and the user gets the blink (a blank
  frame, then the buffer again), so at the maximum further presses leave the period
  there and blink.
\<close>

theorem solid_key_doubles_period:
  assumes "onOff s" and "currentState s = SolidColor" and "v AND 0xffff = 0x48b7"
  shows "let s' = key_event rnd now v s; t = slowAnimationTime s
         in currentState s' = SolidColor
            \<and> (hue s', saturation s', brightness s') = (hue s, saturation s, brightness s)
            \<and> (t = 0 \<longrightarrow> slowAnimationTime s' = MIN_ANIMATION_TIME
                           \<and> shown s' = leds s' # shown s)
            \<and> (t \<noteq> 0 \<and> 2 * t \<le> MAX_ANIMATION_TIME \<longrightarrow>
                  slowAnimationTime s' = 2 * t \<and> shown s' = leds s' # shown s)
            \<and> (2 * t > MAX_ANIMATION_TIME \<longrightarrow>
                  slowAnimationTime s' = MAX_ANIMATION_TIME
                  \<and> shown s' = leds s' # leds (ShowBuffer s) # blank_frame # shown s)
            \<and> (t = MAX_ANIMATION_TIME \<longrightarrow> slowAnimationTime s' = MAX_ANIMATION_TIME)"
proof -
  let ?s1 = "s\<lparr>keyCode := v AND 0xffff, keyTimer := now\<rparr>"
  let ?d = "slow_down MIN_ANIMATION_TIME now ?s1"
  have np: "v AND 0xffff \<noteq> 0x58a7" using assms(3) by simp
  have d: "dispatch now ?s1 = ?d"
    using assms(2,3) by (simp add: dispatch_def Let_def)
  have cs: "currentState ?d = SolidColor" using assms(2) by (simp add: slow_down_cases)
  have e: "key_event rnd now v s = ShowBuffer (CreateSolidColor (hue ?d) (saturation ?d) (brightness ?d) ?d)"
    unfolding key_event_on[OF assms(1) np] d by (rule refresh_solid[OF cs])
  have t: "slowAnimationTime (key_event rnd now v s) = slowAnimationTime ?d"
    unfolding e by (simp add: ShowBuffer_def FastLED_show_def CreateSolidColor_def)
  have h: "hue (key_event rnd now v s) = hue s" "saturation (key_event rnd now v s) = saturation s"
    "brightness (key_event rnd now v s) = brightness s"
    "currentState (key_event rnd now v s) = SolidColor"
    unfolding e using assms(2)
    by (simp_all add: ShowBuffer_def FastLED_show_def CreateSolidColor_def slow_down_cases)
  have sh: "shown (key_event rnd now v s) = leds (key_event rnd now v s) # shown ?d"
    unfolding e by (simp add: ShowBuffer_def FastLED_show_def CreateSolidColor_def)
  have lb: "leds (ShowBuffer ?s1) = leds (ShowBuffer s)"
    by (simp add: ShowBuffer_def FastLED_show_def)
  show ?thesis
    unfolding Let_def t h sh slow_down_cases lb
    by (simp add: MAX_ANIMATION_TIME_def MIN_ANIMATION_TIME_def)
qed


lemma solid_entry_fields:
  "onOff solid_entry_state" "currentState solid_entry_state = SolidColor"
  "slowAnimationTime solid_entry_state = 0"
  by (simp_all add: solid_entry_state_def key_event_def dispatch_def refresh_def Let_def
      setup_fields ShowBuffer_def FastLED_show_def CreateSolidColor_def)

lemma solid_fields:
  "onOff solid_state" "currentState solid_state = SolidColor"
  "slowAnimationTime solid_state = 16"
proof -
  have e: "solid_state = key_event (\<lambda>_. 0) 0 0x48b7 solid_entry_state"
    by (simp add: solid_state_def solid_entry_state_def)
  show "onOff solid_state" "currentState solid_state = SolidColor"
    "slowAnimationTime solid_state = 16"
    unfolding e
    by (simp_all add: key_event_def dispatch_def refresh_def Let_def solid_entry_fields
        slow_down_def ShowBuffer_def FastLED_show_def CreateSolidColor_def MIN_ANIMATION_TIME_def)
qed

lemma solid_capped_fields:
  "onOff solid_capped_state" "currentState solid_capped_state = SolidColor"
  "slowAnimationTime solid_capped_state = 4096"
  by (simp_all add: solid_capped_state_def solid_fields MAX_ANIMATION_TIME_def)

text \<open>
  Claim C6 as stated fails: in SolidColor with the animation at 16 ms per step, the next
  press of the key makes the period 32, not 8.
\<close>

theorem solid_key_does_not_halve:
  "onOff solid_state \<and> currentState solid_state = SolidColor
   \<and> slowAnimationTime solid_state = 16
   \<and> slowAnimationTime (key_event (\<lambda>_. 0) 0 0x48b7 solid_state) = 32
   \<and> slowAnimationTime (key_event (\<lambda>_. 0) 0 0x48b7 solid_state)
        \<noteq> slowAnimationTime solid_state div 2"
proof -
  have "slowAnimationTime (key_event (\<lambda>_. 0) 0 0x48b7 solid_state) = 32"
    by (simp add: key_event_def dispatch_def refresh_def Let_def solid_fields
        slow_down_def ShowBuffer_def FastLED_show_def CreateSolidColor_def
        MAX_ANIMATION_TIME_def)
  then show ?thesis by (simp add: solid_fields)
qed

theorem solid_key_doubles_period_witness:
  "onOff solid_entry_state \<and> currentState solid_entry_state = SolidColor
   \<and> (0x48b7 :: 32 word) AND 0xffff = 0x48b7
   \<and> slowAnimationTime solid_entry_state = 0
   \<and> slowAnimationTime (key_event (\<lambda>_. 0) 0 0x48b7 solid_entry_state) = MIN_ANIMATION_TIME
   \<and> onOff solid_state \<and> currentState solid_state = SolidColor
   \<and> slowAnimationTime solid_state \<noteq> 0
   \<and> 2 * slowAnimationTime solid_state \<le> MAX_ANIMATION_TIME
   \<and> slowAnimationTime (key_event (\<lambda>_. 0) 0 0x48b7 solid_state) = 2 * slowAnimationTime solid_state
   \<and> onOff solid_capped_state \<and> currentState solid_capped_state = SolidColor
   \<and> 2 * slowAnimationTime solid_capped_state > MAX_ANIMATION_TIME
   \<and> slowAnimationTime solid_capped_state = MAX_ANIMATION_TIME
   \<and> slowAnimationTime (key_event (\<lambda>_. 0) 0 0x48b7 solid_capped_state) = MAX_ANIMATION_TIME
   \<and> shown (key_event (\<lambda>_. 0) 0 0x48b7 solid_capped_state)
       = leds (key_event (\<lambda>_. 0) 0 0x48b7 solid_capped_state)
         # leds (ShowBuffer solid_capped_state) # blank_frame # shown solid_capped_state"
proof -
  have k: "(0x48b7 :: 32 word) AND 0xffff = 0x48b7" by simp
  have a: "slowAnimationTime solid_entry_state = 0" by (rule solid_entry_fields(3))
  have b: "slowAnimationTime solid_state \<noteq> 0"
    "2 * slowAnimationTime solid_state \<le> MAX_ANIMATION_TIME"
    by (simp_all add: solid_fields MAX_ANIMATION_TIME_def)
  have c: "2 * slowAnimationTime solid_capped_state > MAX_ANIMATION_TIME"
    "slowAnimationTime solid_capped_state = MAX_ANIMATION_TIME"
    by (simp_all add: solid_capped_fields MAX_ANIMATION_TIME_def)
  note t1 = solid_key_doubles_period [OF solid_entry_fields(1,2) k, of "\<lambda>_. 0" 0, unfolded Let_def]
  note t2 = solid_key_doubles_period [OF solid_fields(1,2) k, of "\<lambda>_. 0" 0, unfolded Let_def]
  note t3 = solid_key_doubles_period [OF solid_capped_fields(1,2) k, of "\<lambda>_. 0" 0, unfolded Let_def]
  show ?thesis
    using k a b c solid_entry_fields(1,2) solid_fields(1,2) solid_capped_fields(1,2) t1 t2 t3
    by blast
qed



subsection \<open>Editing the quiet color\<close>

lemma snapshot_UpdateQuietColor: "snapshot_current (UpdateQuietColor s)"
  by (cases "apply_sat_bright (saturation s) (brightness s) (Hue (hue s))")
    (simp add: snapshot_current_def UpdateQuietColor_def Let_def)

lemma UpdateQuietColor_keeps:
  "currentState (UpdateQuietColor s) = currentState s" "onOff (UpdateQuietColor s) = onOff s"
  by (simp_all add: UpdateQuietColor_def Let_def split: prod.splits)

lemma snapshot_display:
  "snapshot_current (ShowBuffer s) = snapshot_current s"
  "snapshot_current (CreateSolidColor h sat bri s) = snapshot_current s"
  by (simp_all add: snapshot_current_def ShowBuffer_def FastLED_show_def CreateSolidColor_def)

lemma snapshot_refresh_quiet:
  "currentState s = QuietColor \<Longrightarrow> snapshot_current (refresh rnd s) = snapshot_current s"
  by (simp add: refresh_quiet snapshot_display)

lemma update_if_quiet_snapshot:
  "currentState s = QuietColor \<Longrightarrow> snapshot_current (update_if_quiet s)"
  "currentState s = QuietColor \<Longrightarrow> currentState (update_if_quiet s) = QuietColor"
  by (simp_all add: update_if_quiet_def snapshot_UpdateQuietColor UpdateQuietColor_keeps)

lemma dispatch_editing_keys:
  assumes "currentState s = QuietColor"
    and "keyCode s = 0x609f \<or> keyCode s = 0x20df \<or> keyCode s = 0xa05f
         \<or> keyCode s = 0x708f \<or> keyCode s = 0x30cf"
  shows "snapshot_current (dispatch now s) \<and> currentState (dispatch now s) = QuietColor"
  using assms(2)
proof (elim disjE)
  assume k: "keyCode s = 0x609f"
  show ?thesis unfolding dispatch_def Let_def k
    using assms(1) by (simp add: update_if_quiet_snapshot CreateSolidColor_def)
next
  assume k: "keyCode s = 0x20df"
  show ?thesis unfolding dispatch_def Let_def k
    using assms(1) by (simp add: update_if_quiet_snapshot CreateSolidColor_def)
next
  assume k: "keyCode s = 0xa05f"
  show ?thesis unfolding dispatch_def Let_def k
    using assms(1) by (simp add: update_if_quiet_snapshot)
next
  assume k: "keyCode s = 0x708f"
  show ?thesis unfolding dispatch_def Let_def k
    using assms(1) by (simp add: update_if_quiet_snapshot)
next
  assume k: "keyCode s = 0x30cf"
  show ?thesis unfolding dispatch_def Let_def k
    using assms(1) by (simp add: update_if_quiet_snapshot)
qed

lemma other_edit_keys_update_snapshot:
  assumes "onOff s" and "currentState s = QuietColor"
    and "v AND 0xffff \<in> {0x609f, 0x20df, 0xa05f, 0x708f, 0x30cf}"
  shows "snapshot_current (key_event rnd now v s)"
proof -
  let ?s1 = "s\<lparr>keyCode := v AND 0xffff, keyTimer := now\<rparr>"
  from assms(3) have np: "v AND 0xffff \<noteq> 0x58a7" by auto
  have c1: "currentState ?s1 = QuietColor" using assms(2) by simp
  have k: "keyCode ?s1 = 0x609f \<or> keyCode ?s1 = 0x20df \<or> keyCode ?s1 = 0xa05f
         \<or> keyCode ?s1 = 0x708f \<or> keyCode ?s1 = 0x30cf"
    using assms(3) by auto
  from dispatch_editing_keys[OF c1 k, of now]
  show ?thesis unfolding key_event_on[OF assms(1) np] by (simp add: snapshot_refresh_quiet)
qed

lemma quiet_edit_fields:
  "onOff quiet_edit_state" "currentState quiet_edit_state = QuietColor"
  "hue quiet_edit_state = 0" "saturation quiet_edit_state = 0"
  "brightness quiet_edit_state = 0.0039"
  "quietHue quiet_edit_state = 0" "quietSaturation quiet_edit_state = 0"
  "quietBrightness quiet_edit_state = 0.0039"
  "quietRed quiet_edit_state = 15.9705"
  by (simp_all add: quiet_edit_state_def key_event_def dispatch_def refresh_def Let_def
      setup_fields update_if_quiet_def UpdateQuietColor_def ShowBuffer_def FastLED_show_def
      CreateSolidColor_def BRIGHT_LSB_def Hue_def apply_sat_bright_def makeValid_def
      MAX_ANALOG_def split: prod.splits)

text \<open>
  Claim C7 at a failing input. After Quiet Color and Brighten the mode is QuietColor and
  the snapshot equals the color on display. The Resaturate key then edits the saturation
  to 0.45 in the same mode, and the snapshot is not updated: \<open>quietSaturation\<close> is
  still 0 and \<open>quietRed\<close> still 15.9705, where \<open>UpdateQuietColor\<close> would give
  8.783775.
\<close>

theorem resaturate_leaves_snapshot_stale:
  "onOff quiet_edit_state \<and> currentState quiet_edit_state = QuietColor
   \<and> snapshot_current quiet_edit_state
   \<and> saturation quiet_edit_state = 0
   \<and> currentState (key_event (\<lambda>_. 0) 0 0xb04f quiet_edit_state) = QuietColor
   \<and> saturation (key_event (\<lambda>_. 0) 0 0xb04f quiet_edit_state) = 0.45
   \<and> quietSaturation (key_event (\<lambda>_. 0) 0 0xb04f quiet_edit_state) = 0
   \<and> quietRed (key_event (\<lambda>_. 0) 0 0xb04f quiet_edit_state) = 15.9705
   \<and> quietRed (UpdateQuietColor (key_event (\<lambda>_. 0) 0 0xb04f quiet_edit_state)) = 8.783775
   \<and> \<not> snapshot_current (key_event (\<lambda>_. 0) 0 0xb04f quiet_edit_state)"
proof -
  let ?s' = "key_event (\<lambda>_. 0) 0 0xb04f quiet_edit_state"
  have f: "currentState ?s' = QuietColor" "saturation ?s' = 0.45" "quietSaturation ?s' = 0"
    "quietRed ?s' = 15.9705" "hue ?s' = 0" "brightness ?s' = 0.0039"
    by (simp_all add: key_event_def dispatch_def refresh_def Let_def quiet_edit_fields
        ShowBuffer_def FastLED_show_def CreateSolidColor_def SATURATION_LIMIT_def
        BRIGHT_LSB_def Blink_def)
  have u: "quietRed (UpdateQuietColor ?s') = 8.783775"
    by (simp add: UpdateQuietColor_def Let_def f Hue_def apply_sat_bright_def makeValid_def
        MAX_ANALOG_def split: prod.splits)
  have sc: "snapshot_current quiet_edit_state"
    unfolding quiet_edit_state_def
    by (rule other_edit_keys_update_snapshot)
      (simp_all add: key_event_def dispatch_def refresh_def Let_def setup_fields
        ShowBuffer_def FastLED_show_def CreateSolidColor_def)
  have ns: "\<not> snapshot_current ?s'" by (simp add: snapshot_current_def f)
  from f u sc ns show ?thesis by (simp add: quiet_edit_fields)
qed

end
